theory Spec2Isabelle
  imports Complex_Main "HOL-Library.Multiset" "HOL-Library.Log_Nat"
begin

section \<open>Strings and numbers of the host language\<close>

text \<open>
  Strings are \<^typ>\<open>string\<close> (lists of characters); a character stands for a UTF-16 code
  unit below 256, so the strings of the model are the Latin-1 strings. \<open>toLowerCase\<close> maps
  \<open>A\<close>..\<open>Z\<close> and the Latin-1 capitals \<open>0xC0\<close>..\<open>0xDE\<close> (without the multiplication
  sign \<open>0xD7\<close>) to the letter 32 places further on and leaves every other character alone.
  Counters are \<^typ>\<open>nat\<close> or \<^typ>\<open>int\<close>. The numbers that the source computes with
  division, \<open>Math.pow\<close> and \<open>Math.sqrt\<close> are IEEE doubles, modelled in the next section.
\<close>

definition upper_chars :: string where
  "upper_chars = ''ABCDEFGHIJKLMNOPQRSTUVWXYZ''
     @ [CHR 0xC0, CHR 0xC1, CHR 0xC2, CHR 0xC3, CHR 0xC4, CHR 0xC5, CHR 0xC6, CHR 0xC7,
        CHR 0xC8, CHR 0xC9, CHR 0xCA, CHR 0xCB, CHR 0xCC, CHR 0xCD, CHR 0xCE, CHR 0xCF,
        CHR 0xD0, CHR 0xD1, CHR 0xD2, CHR 0xD3, CHR 0xD4, CHR 0xD5, CHR 0xD6,
        CHR 0xD8, CHR 0xD9, CHR 0xDA, CHR 0xDB, CHR 0xDC, CHR 0xDD, CHR 0xDE]"

definition lower_chars :: string where
  "lower_chars = ''abcdefghijklmnopqrstuvwxyz''
     @ [CHR 0xE0, CHR 0xE1, CHR 0xE2, CHR 0xE3, CHR 0xE4, CHR 0xE5, CHR 0xE6, CHR 0xE7,
        CHR 0xE8, CHR 0xE9, CHR 0xEA, CHR 0xEB, CHR 0xEC, CHR 0xED, CHR 0xEE, CHR 0xEF,
        CHR 0xF0, CHR 0xF1, CHR 0xF2, CHR 0xF3, CHR 0xF4, CHR 0xF5, CHR 0xF6,
        CHR 0xF8, CHR 0xF9, CHR 0xFA, CHR 0xFB, CHR 0xFC, CHR 0xFD, CHR 0xFE]"

definition lower_char :: "char \<Rightarrow> char" where
  "lower_char c =
     (case map_of (zip upper_chars lower_chars) c of
        Some l \<Rightarrow> l
      | None \<Rightarrow> c)"

definition toLowerCase :: "string \<Rightarrow> string" where
  "toLowerCase s = map lower_char s"

text \<open>\<open>String.prototype.startsWith\<close> and \<open>String.prototype.includes\<close> (substring test).\<close>

fun startsWith :: "string \<Rightarrow> string \<Rightarrow> bool" where
  "startsWith s [] = True"
| "startsWith [] (k # ks) = False"
| "startsWith (c # cs) (k # ks) = (c = k \<and> startsWith cs ks)"

fun includes_str :: "string \<Rightarrow> string \<Rightarrow> bool" where
  "includes_str [] k = (k = [])"
| "includes_str (c # cs) k = (startsWith (c # cs) k \<or> includes_str cs k)"

text \<open>\<open>Array.prototype.join\<close>.\<close>

fun join :: "string \<Rightarrow> string list \<Rightarrow> string" where
  "join sep [] = []"
| "join sep [x] = x"
| "join sep (x # y # ys) = x @ sep @ join sep (y # ys)"

text \<open>
  Decimal rendering of an integer inside a template literal. Integer-valued numbers print
  like this below \<open>10\<^sup>2\<^sup>1\<close>; from there on the source prints an exponent form, which
  is not modelled.
\<close>

definition digit_char :: "nat \<Rightarrow> char" where
  "digit_char d = ''0123456789'' ! d"

function show_nat :: "nat \<Rightarrow> string" where
  "show_nat n = (if n < 10 then [digit_char n] else show_nat (n div 10) @ [digit_char (n mod 10)])"
  by pat_completeness auto
termination
  by (relation "measure (\<lambda>n. n)") auto

definition show_int :: "int \<Rightarrow> string" where
  "show_int i = (if i < 0 then CHR ''-'' # show_nat (nat (- i)) else show_nat (nat i))"

text \<open>\<open>Math.round\<close>: the nearest integer, a tie going up.\<close>

definition js_round :: "real \<Rightarrow> int" where
  "js_round x = \<lfloor>x + 1 / 2\<rfloor>"

section \<open>IEEE doubles\<close>

text \<open>
  A double is a real number; an arithmetic operation of the source is the exact operation
  followed by \<open>rnd\<close>, rounding to the nearest number with a 53-bit significand, a tie going
  to the even significand. \<open>binade x\<close> is the exponent \<open>e\<close> with \<open>2\<^sup>e \<le> x < 2\<^sup>e\<^sup>+\<^sup>1\<close> for
  positive \<open>x\<close>. Overflow to infinity and gradual underflow are left out: they need
  magnitudes beyond \<open>2\<^sup>1\<^sup>0\<^sup>2\<^sup>3\<close> or below \<open>2\<^sup>-\<^sup>1\<^sup>0\<^sup>2\<^sup>2\<close>, which counts of issues do not produce.
  \<open>Math.sqrt\<close> is the correctly rounded square root, and \<open>Math.pow(x, 2)\<close> is taken to be
  the correctly rounded square, the value of \<open>x * x\<close>.
\<close>

definition pow2 :: "int \<Rightarrow> real" where
  "pow2 e = (if 0 \<le> e then 2 ^ nat e else 1 / 2 ^ nat (- e))"

definition binade :: "real \<Rightarrow> int" where
  "binade x = (if 1 \<le> x then bitlen \<lfloor>x\<rfloor> - 1 else - bitlen (\<lceil>1 / x\<rceil> - 1))"

definition round_even :: "real \<Rightarrow> int" where
  "round_even y =
     (let f = \<lfloor>y\<rfloor> in
      if y - of_int f < 1 / 2 then f
      else if 1 / 2 < y - of_int f then f + 1
      else if even f then f else f + 1)"

definition rnd :: "real \<Rightarrow> real" where
  "rnd x =
     (if x = 0 then 0
      else (let u = pow2 (binade \<bar>x\<bar> - 52) in u * of_int (round_even (x / u))))"

definition d_add :: "real \<Rightarrow> real \<Rightarrow> real" where
  "d_add a b = rnd (a + b)"

definition d_sub :: "real \<Rightarrow> real \<Rightarrow> real" where
  "d_sub a b = rnd (a - b)"

definition d_mul :: "real \<Rightarrow> real \<Rightarrow> real" where
  "d_mul a b = rnd (a * b)"

definition d_div :: "real \<Rightarrow> real \<Rightarrow> real" where
  "d_div a b = rnd (a / b)"

definition d_sqrt :: "real \<Rightarrow> real" where
  "d_sqrt a = rnd (sqrt a)"

definition d_square :: "real \<Rightarrow> real" where
  "d_square a = d_mul a a"

section \<open>The issue tracker as seen by the analytics module\<close>

datatype error = ApiError string

record JiraUser =
  displayName :: string
  emailAddress :: string

text \<open>
  \<open>JiraIssue\<close> with the \<open>fields\<close> object flattened. An optional or nullable field is an
  \<^typ>\<open>'a option\<close>; \<open>description\<close> is \<open>None\<close> whenever \<open>typeof\<close> is not \<open>'string'\<close>.
\<close>

record JiraIssue =
  issue_key :: string
  issue_summary :: string
  issue_description :: "string option"
  status_name :: string
  priority :: "string option"
  assignee :: "JiraUser option"
  reporter :: "JiraUser option"
  issuetype_name :: string
  updated :: string
  labels :: "string list option"

record Sprint =
  sprint_id :: int
  sprint_name :: string

text \<open>
  The client's three calls used here. Each either throws (\<open>Inl\<close>) or resolves (\<open>Inr\<close>);
  of a resolved response only the \<open>issues\<close> (\<open>values\<close>) array is read.
\<close>

record JiraClient =
  getSprintIssues :: "int \<Rightarrow> error + JiraIssue list"
  getSprints :: "int \<Rightarrow> error + Sprint list"
  searchIssues :: "string \<Rightarrow> nat \<Rightarrow> error + JiraIssue list"

section \<open>Sprint health analyzer\<close>

datatype HealthStatus = excellent | good | at_risk | critical

datatype VelocityTrend = up | stable | down

datatype BurndownHealth = on_track | ahead | behind

record IssueBreakdown =
  total :: nat
  done_cnt :: nat
  inProgress :: nat
  todo :: nat
  blocked :: nat

record SprintMetrics =
  completionRate :: int
  velocityTrend :: VelocityTrend
  scopeChange :: int
  blockedIssues :: nat
  avgCycleTime :: int
  burndownHealth :: BurndownHealth

record SprintHealthMetrics =
  sprintName :: string
  sprintId :: int
  healthScore :: int
  healthStatus :: HealthStatus
  metrics :: SprintMetrics
  risks :: "string list"
  recommendations :: "string list"
  issueBreakdown :: IssueBreakdown

text \<open>The three accumulators that the loop over the issues updates.\<close>

record tally =
  t_breakdown :: IssueBreakdown
  t_blockedIssues :: "string list"
  t_risks :: "string list"

definition isDoneStatus :: "string \<Rightarrow> bool" where
  "isDoneStatus status = (status = ''done'' \<or> status = ''closed'' \<or> status = ''resolved'')"

definition isInProgressStatus :: "string \<Rightarrow> bool" where
  "isInProgressStatus status =
     (status = ''in progress'' \<or> status = ''in review'' \<or> status = ''code review'')"

definition isBlockedStatus :: "string \<Rightarrow> bool" where
  "isBlockedStatus status = (status = ''blocked'' \<or> status = ''impediment'')"

definition bucket_step :: "string \<Rightarrow> JiraIssue \<Rightarrow> tally \<Rightarrow> tally" where
  "bucket_step status issue t =
     (let b = t_breakdown t in
      if isDoneStatus status
        then t\<lparr>t_breakdown := b\<lparr>done_cnt := done_cnt b + 1\<rparr>\<rparr>
      else if isInProgressStatus status
        then t\<lparr>t_breakdown := b\<lparr>inProgress := inProgress b + 1\<rparr>\<rparr>
      else if isBlockedStatus status
        then t\<lparr>t_breakdown := b\<lparr>blocked := blocked b + 1\<rparr>,
               t_blockedIssues := t_blockedIssues t @ [issue_key issue @ '': '' @ issue_summary issue]\<rparr>
      else t\<lparr>t_breakdown := b\<lparr>todo := todo b + 1\<rparr>\<rparr>)"

definition unassigned_step :: "string \<Rightarrow> JiraIssue \<Rightarrow> tally \<Rightarrow> tally" where
  "unassigned_step status issue t =
     (if assignee issue = None \<and> status \<noteq> ''done''
        then t\<lparr>t_risks := t_risks t @ [''Unassigned issue: '' @ issue_key issue]\<rparr>
      else t)"

definition priority_step :: "string \<Rightarrow> JiraIssue \<Rightarrow> tally \<Rightarrow> tally" where
  "priority_step status issue t =
     (if priority issue = None \<and> status \<noteq> ''done''
        then t\<lparr>t_risks := t_risks t @ [''No priority set: '' @ issue_key issue]\<rparr>
      else t)"

definition issue_step :: "tally \<Rightarrow> JiraIssue \<Rightarrow> tally" where
  "issue_step t issue =
     (let status = toLowerCase (status_name issue) in
      priority_step status issue (unassigned_step status issue (bucket_step status issue t)))"

definition initial_tally :: "JiraIssue list \<Rightarrow> tally" where
  "initial_tally issues =
     \<lparr>t_breakdown = \<lparr>total = length issues, done_cnt = 0, inProgress = 0, todo = 0, blocked = 0\<rparr>,
      t_blockedIssues = [], t_risks = []\<rparr>"

definition tally_issues :: "JiraIssue list \<Rightarrow> tally" where
  "tally_issues issues = foldl issue_step (initial_tally issues) issues"

text \<open>
  The risk strings that one pass of the loop body appends for an issue: the two checks
  that follow the classification.
\<close>

definition riskStringsOf :: "JiraIssue \<Rightarrow> string list" where
  "riskStringsOf issue =
     (if assignee issue = None \<and> toLowerCase (status_name issue) \<noteq> ''done''
        then [''Unassigned issue: '' @ issue_key issue] else [])
     @ (if priority issue = None \<and> toLowerCase (status_name issue) \<noteq> ''done''
          then [''No priority set: '' @ issue_key issue] else [])"

text \<open>
  Sprint name: the default unless a truthy \<open>boardId\<close> is given, the lookup succeeds and a
  sprint with the same id is found.
\<close>

definition resolveSprintName :: "JiraClient \<Rightarrow> int \<Rightarrow> int option \<Rightarrow> string" where
  "resolveSprintName client sid boardId =
     (let dflt = ''Sprint '' @ show_int sid in
      case boardId of
        None \<Rightarrow> dflt
      | Some b \<Rightarrow>
          if b = 0 then dflt
          else (case getSprints client b of
                  Inl e \<Rightarrow> dflt
                | Inr sprints \<Rightarrow>
                    (case find (\<lambda>s. sprint_id s = sid) sprints of
                       Some s \<Rightarrow> sprint_name s
                     | None \<Rightarrow> dflt)))"

definition completionRateOf :: "IssueBreakdown \<Rightarrow> int" where
  "completionRateOf b =
     (if total b > 0 then js_round (d_mul (d_div (real (done_cnt b)) (real (total b))) 100)
      else 0)"

text \<open>
  \<open>inProgress > issues.length * 0.4\<close>, written as a comparison of real numbers.
\<close>

definition wipOverload :: "IssueBreakdown \<Rightarrow> nat \<Rightarrow> bool" where
  "wipOverload b n = (real (inProgress b) > real n * (4 / 10))"

definition moreRemaining :: "IssueBreakdown \<Rightarrow> int \<Rightarrow> bool" where
  "moreRemaining b rate = (todo b > done_cnt b \<and> rate < 50)"

definition rawHealthScore :: "IssueBreakdown \<Rightarrow> nat \<Rightarrow> int \<Rightarrow> int" where
  "rawHealthScore b n rate =
     100 - max 0 (50 - rate) - int (blocked b) * 5
       - (if wipOverload b n then 10 else 0)
       - (if moreRemaining b rate then 10 else 0)"

definition healthStatusOf :: "int \<Rightarrow> HealthStatus" where
  "healthStatusOf score =
     (if score \<ge> 80 then excellent
      else if score \<ge> 60 then good
      else if score \<ge> 40 then at_risk
      else critical)"

definition burndownHealthOf :: "int \<Rightarrow> IssueBreakdown \<Rightarrow> BurndownHealth" where
  "burndownHealthOf rate b =
     (if rate > 70 then ahead
      else if rate < 30 \<and> inProgress b < 3 then behind
      else on_track)"

definition sprintRecommendations ::
  "IssueBreakdown \<Rightarrow> string list \<Rightarrow> int \<Rightarrow> HealthStatus \<Rightarrow> string list" where
  "sprintRecommendations b rs rate st =
     (let r1 = (if blocked b > 0
                  then [''Address '' @ show_nat (blocked b) @ '' blocked issue(s) immediately'']
                else []);
          r2 = r1 @ (if wipOverload b (total b)
                       then [''Focus on completing in-progress work before starting new items'']
                     else []);
          r3 = r2 @ (if length (filter (\<lambda>r. includes_str r ''Unassigned'') rs) > 0
                       then [''Assign owners to all remaining issues'']
                     else []);
          r4 = r3 @ (if rate < 50 \<and> todo b > 5
                       then [''Consider reducing sprint scope'']
                     else [])
      in r4 @ (if st = excellent \<and> length r4 = 0
                 then [''Sprint is progressing well - maintain current pace'']
               else []))"

definition analyzeSprintHealth ::
  "JiraClient \<Rightarrow> int \<Rightarrow> int option \<Rightarrow> error + SprintHealthMetrics" where
  "analyzeSprintHealth client sid boardId =
     (case getSprintIssues client sid of
        Inl e \<Rightarrow> Inl e
      | Inr issues \<Rightarrow>
          (let name = resolveSprintName client sid boardId;
               t = tally_issues issues;
               b = t_breakdown t;
               rate = completionRateOf b;
               risks1 = t_risks t
                 @ (if wipOverload b (length issues)
                      then [''Too many issues in progress (WIP overload)''] else [])
                 @ (if moreRemaining b rate
                      then [''More work remaining than completed''] else []);
               score = max 0 (min 100 (rawHealthScore b (length issues) rate));
               st = healthStatusOf score
           in Inr \<lparr>sprintName = name,
                   sprintId = sid,
                   healthScore = score,
                   healthStatus = st,
                   metrics = \<lparr>completionRate = rate,
                              velocityTrend = stable,
                              scopeChange = 0,
                              blockedIssues = blocked b,
                              avgCycleTime = 0,
                              burndownHealth = burndownHealthOf rate b\<rparr>,
                   risks = risks1,
                   recommendations = sprintRecommendations b risks1 rate st,
                   issueBreakdown = b\<rparr>))"

section \<open>Team workload dashboard\<close>

datatype WorkloadStatus = underutilized | optimal | heavy | overloaded_ws

record MemberMetrics =
  assignedIssues :: nat
  inProgressIssues :: nat
  completedThisWeek :: nat
  storyPointsAssigned :: nat
  storyPointsCompleted :: nat
  overdueTasks :: nat
  avgCompletionTime :: nat

record WorkloadMetrics =
  teamMember :: string
  userId :: string
  memberMetrics :: MemberMetrics
  workloadStatus :: WorkloadStatus
  riskFactors :: "string list"

record TeamWorkloadDashboard =
  generatedAt :: string
  dashboardSprintName :: "string option"
  teamSize :: nat
  totalIssues :: nat
  averageWorkload :: real
  workloadDistribution :: "WorkloadMetrics list"
  balanceScore :: int
  dashboardRecommendations :: "string list"
  bottlenecks :: "string list"

text \<open>
  What the module reads from the platform's \<open>Date\<close>: the current time in milliseconds
  (\<open>Date.now()\<close>), the same instant as an ISO string, and the parser behind
  \<open>new Date(s).getTime()\<close>, which is \<open>None\<close> for a string that is no date (\<open>NaN\<close>, for
  which every comparison is false).
\<close>

record Clock =
  now_ms :: int
  now_iso :: string
  parse_ms :: "string \<Rightarrow> int option"

definition dquote :: char where
  "dquote = CHR 0x22"

text \<open>The query. An absent or empty project key and an absent or zero sprint id are falsy.\<close>

definition dashboardJql :: "string option \<Rightarrow> int option \<Rightarrow> string" where
  "dashboardJql projectKey sprint =
     ''assignee is not EMPTY''
     @ (case projectKey of
          None \<Rightarrow> []
        | Some k \<Rightarrow> if k = [] then [] else '' AND project = '' @ [dquote] @ k @ [dquote])
     @ (case sprint of
          None \<Rightarrow> '' AND status != Done AND status != Closed''
        | Some n \<Rightarrow> if n = 0 then '' AND status != Done AND status != Closed''
                    else '' AND sprint = '' @ show_int n)"

text \<open>
  \<open>assigneeMap\<close>: a \<open>Map\<close> iterates in insertion order, so it is an association list
  with one entry per key, a new key going to the end.
\<close>

fun map_push :: "(string \<times> JiraIssue list) list \<Rightarrow> string \<Rightarrow> JiraIssue
    \<Rightarrow> (string \<times> JiraIssue list) list" where
  "map_push [] k v = [(k, [v])]"
| "map_push ((k', vs) # m) k v =
     (if k' = k then (k', vs @ [v]) # m else (k', vs) # map_push m k v)"

definition group_step :: "(string \<times> JiraIssue list) list \<Rightarrow> JiraIssue
    \<Rightarrow> (string \<times> JiraIssue list) list" where
  "group_step m issue =
     (case assignee issue of
        None \<Rightarrow> m
      | Some a \<Rightarrow> map_push m (displayName a) issue)"

definition groupByAssignee :: "JiraIssue list \<Rightarrow> (string \<times> JiraIssue list) list" where
  "groupByAssignee issues = foldl group_step [] issues"

text \<open>The display name under which an issue is grouped, if it has an assignee.\<close>

definition assigneeName :: "JiraIssue \<Rightarrow> string option" where
  "assigneeName issue = map_option displayName (assignee issue)"

definition countsInProgress :: "string \<Rightarrow> bool" where
  "countsInProgress status = (includes_str status ''progress'' \<or> includes_str status ''review'')"

definition staleFor14Days :: "Clock \<Rightarrow> JiraIssue \<Rightarrow> bool" where
  "staleFor14Days clk issue =
     (case parse_ms clk (updated issue) of
        None \<Rightarrow> False
      | Some u \<Rightarrow> real_of_int (now_ms clk - u) / (1000 * 60 * 60 * 24) > 14)"

definition member_step :: "Clock \<Rightarrow> MemberMetrics \<Rightarrow> JiraIssue \<Rightarrow> MemberMetrics" where
  "member_step clk m issue =
     (let status = toLowerCase (status_name issue);
          m1 = (if countsInProgress status
                  then m\<lparr>inProgressIssues := inProgressIssues m + 1\<rparr> else m)
      in if staleFor14Days clk issue \<and> \<not> includes_str status ''done''
            \<and> \<not> includes_str status ''closed''
           then m1\<lparr>overdueTasks := overdueTasks m1 + 1\<rparr>
         else m1)"

definition workloadStatusOf :: "nat \<Rightarrow> WorkloadStatus" where
  "workloadStatusOf n =
     (if n \<le> 2 then underutilized
      else if n \<le> 5 then optimal
      else if n \<le> 8 then heavy
      else overloaded_ws)"

definition memberWorkload :: "Clock \<Rightarrow> string \<times> JiraIssue list \<Rightarrow> WorkloadMetrics" where
  "memberWorkload clk entry =
     (let name = fst entry;
          memberIssues = snd entry;
          m = foldl (member_step clk)
                \<lparr>assignedIssues = length memberIssues, inProgressIssues = 0,
                  completedThisWeek = 0, storyPointsAssigned = 0, storyPointsCompleted = 0,
                  overdueTasks = 0, avgCompletionTime = 0\<rparr>
                memberIssues;
          st = workloadStatusOf (assignedIssues m);
          rf1 = (if st = overloaded_ws
                   then [''Has '' @ show_nat (assignedIssues m) @ '' assigned issues''] else []);
          rf2 = rf1 @ (if inProgressIssues m > 3
                         then [''Too many items in progress simultaneously''] else []);
          rf3 = rf2 @ (if overdueTasks m > 0
                         then [show_nat (overdueTasks m) @ '' potentially stale issue(s)'']
                       else [])
      in \<lparr>teamMember = name, userId = [], memberMetrics = m, workloadStatus = st,
           riskFactors = rf3\<rparr>)"

text \<open>
  The balance score, from the list \<open>workloads\<close> of assigned counts, in double arithmetic:
  both \<open>reduce\<close> calls add from the left, in member order.
\<close>

definition avgWorkloadOf :: "nat list \<Rightarrow> real" where
  "avgWorkloadOf workloads =
     (if length workloads > 0
        then d_div (foldl (\<lambda>a b. d_add a (real b)) 0 workloads) (real (length workloads))
      else 0)"

definition varianceOf :: "nat list \<Rightarrow> real" where
  "varianceOf workloads =
     (if length workloads > 0
        then d_div (foldl (\<lambda>sum w. d_add sum
                             (d_square (d_sub (real w) (avgWorkloadOf workloads))))
                      0 workloads)
               (real (length workloads))
      else 0)"

definition stdDevOf :: "nat list \<Rightarrow> real" where
  "stdDevOf workloads = d_sqrt (varianceOf workloads)"

definition balanceScoreOf :: "nat list \<Rightarrow> real" where
  "balanceScoreOf workloads = max 0 (min 100 (d_sub 100 (d_mul (stdDevOf workloads) 10)))"

definition dashboardAdvice :: "WorkloadMetrics list \<Rightarrow> real \<Rightarrow> string list \<times> string list" where
  "dashboardAdvice distribution score =
     (let over = filter (\<lambda>w. workloadStatus w = overloaded_ws) distribution;
          under = filter (\<lambda>w. workloadStatus w = underutilized) distribution;
          r1 = (if length over > 0 \<and> length under > 0
                  then [''Redistribute work from '' @ join '', '' (map teamMember over)
                          @ '' to '' @ join '', '' (map teamMember under)]
                else []);
          bs = (if length over > 0
                  then map (\<lambda>w. teamMember w @ '' is overloaded with ''
                              @ show_nat (assignedIssues (memberMetrics w)) @ '' issues'') over
                else []);
          highWIP = filter (\<lambda>w. inProgressIssues (memberMetrics w) > 3) distribution;
          r2 = r1 @ (if length highWIP > 0
                       then [join '', '' (map teamMember highWIP)
                               @ '' should focus on completing current work before starting new items'']
                     else []);
          r3 = r2 @ (if score < 50
                       then [''Team workload is uneven - consider more balanced task distribution'']
                     else [])
      in (r3, bs))"

definition generateWorkloadDashboard ::
  "JiraClient \<Rightarrow> Clock \<Rightarrow> string option \<Rightarrow> int option \<Rightarrow> error + TeamWorkloadDashboard" where
  "generateWorkloadDashboard client clk projectKey sprint =
     (case searchIssues client (dashboardJql projectKey sprint) 200 of
        Inl e \<Rightarrow> Inl e
      | Inr issues \<Rightarrow>
          (let assigneeMap = groupByAssignee issues;
               distribution = map (memberWorkload clk) assigneeMap;
               workloads = map (\<lambda>w. assignedIssues (memberMetrics w)) distribution;
               avgWorkload = avgWorkloadOf workloads;
               score = balanceScoreOf workloads;
               advice = dashboardAdvice distribution score
           in Inr \<lparr>generatedAt = now_iso clk,
                   dashboardSprintName =
                     (case sprint of
                        None \<Rightarrow> None
                      | Some n \<Rightarrow> if n = 0 then None else Some (''Sprint '' @ show_int n)),
                   teamSize = length assigneeMap,
                   totalIssues = length issues,
                   averageWorkload = d_div (real_of_int (js_round (d_mul avgWorkload 10))) 10,
                   workloadDistribution = distribution,
                   balanceScore = js_round score,
                   dashboardRecommendations = fst advice,
                   bottlenecks = snd advice\<rparr>))"

text \<open>The list \<open>workloads\<close> as it can be read off a returned dashboard.\<close>

definition assignedCounts :: "TeamWorkloadDashboard \<Rightarrow> nat list" where
  "assignedCounts d = map (\<lambda>w. assignedIssues (memberMetrics w)) (workloadDistribution d)"

section \<open>Smart issue creator: text analysis\<close>

record SimilarIssue =
  similar_key :: string
  similar_summary :: string
  similarity :: real

record SmartIssueAnalysis =
  suggestedType :: string
  suggestedPriority :: string
  suggestedLabels :: "string list"
  suggestedComponents :: "string list"
  estimatedStoryPoints :: nat
  similarIssues :: "SimilarIssue list"
  suggestions :: "string list"

text \<open>\<open>keywords.some(k => textLower.includes(k))\<close>.\<close>

definition someIncluded :: "string list \<Rightarrow> string \<Rightarrow> bool" where
  "someIncluded keywords textLower = list_ex (\<lambda>k. includes_str textLower k) keywords"

definition bugKeywords :: "string list" where
  "bugKeywords = [''bug'', ''error'', ''crash'', ''fail'', ''broken'', ''not working'', ''issue'',
     ''problem'', ''fix'']"

definition featureKeywords :: "string list" where
  "featureKeywords = [''feature'', ''add'', ''new'', ''implement'', ''create'', ''develop'', ''build'']"

definition storyKeywords :: "string list" where
  "storyKeywords = [''as a user'', ''as an admin'', ''i want'', ''so that'', ''user story'']"

definition epicKeywords :: "string list" where
  "epicKeywords = [''epic'', ''initiative'', ''large'', ''multiple sprints'']"

definition improvementKeywords :: "string list" where
  "improvementKeywords = [''improve'', ''enhance'', ''optimize'', ''refactor'', ''performance'']"

definition suggestTypeOf :: "string \<Rightarrow> string" where
  "suggestTypeOf textLower =
     (if someIncluded epicKeywords textLower then ''Epic''
      else if someIncluded storyKeywords textLower then ''Story''
      else if someIncluded bugKeywords textLower then ''Bug''
      else if someIncluded featureKeywords textLower then ''Story''
      else if someIncluded improvementKeywords textLower then ''Improvement''
      else ''Task'')"

definition urgentKeywords :: "string list" where
  "urgentKeywords = [''urgent'', ''critical'', ''blocker'', ''asap'', ''emergency'',
     ''production down'']"

definition highKeywords :: "string list" where
  "highKeywords = [''high priority'', ''important'', ''severe'', ''major'']"

definition lowKeywords :: "string list" where
  "lowKeywords = [''low priority'', ''minor'', ''nice to have'', ''when possible'']"

definition suggestPriorityOf :: "string \<Rightarrow> string" where
  "suggestPriorityOf textLower =
     (if someIncluded urgentKeywords textLower then ''Critical''
      else if someIncluded highKeywords textLower then ''High''
      else if someIncluded lowKeywords textLower then ''Low''
      else ''Medium'')"

definition labelPatterns :: "(string \<times> string list) list" where
  "labelPatterns =
     [(''frontend'', [''ui'', ''frontend'', ''css'', ''react'', ''vue'', ''angular'', ''html'',
         ''button'', ''page'', ''component'']),
      (''backend'', [''api'', ''backend'', ''server'', ''database'', ''endpoint'', ''service'']),
      (''infrastructure'', [''deploy'', ''ci'', ''cd'', ''pipeline'', ''docker'', ''kubernetes'',
         ''aws'', ''cloud'']),
      (''security'', [''security'', ''auth'', ''permission'', ''vulnerability'', ''ssl'',
         ''encryption'']),
      (''performance'', [''performance'', ''slow'', ''optimize'', ''speed'', ''memory'', ''cpu'']),
      (''documentation'', [''doc'', ''readme'', ''guide'', ''tutorial'']),
      (''testing'', [''test'', ''qa'', ''automation'', ''e2e'', ''unit test''])]"

definition suggestLabelsOf :: "string \<Rightarrow> string list" where
  "suggestLabelsOf textLower =
     map fst (filter (\<lambda>entry. someIncluded (snd entry) textLower) labelPatterns)"

definition simpleIndicators :: "string list" where
  "simpleIndicators = [''simple'', ''easy'', ''quick'', ''small'', ''typo'', ''config change'']"

definition complexIndicators :: "string list" where
  "complexIndicators = [''complex'', ''large'', ''multiple'', ''refactor'', ''architecture'',
     ''rewrite'']"

definition hugeIndicators :: "string list" where
  "hugeIndicators = [''entire'', ''complete overhaul'', ''from scratch'', ''migration'']"

definition estimatePointsOf :: "string \<Rightarrow> nat" where
  "estimatePointsOf textLower =
     (if someIncluded hugeIndicators textLower then 13
      else if someIncluded complexIndicators textLower then 8
      else if someIncluded simpleIndicators textLower then 1
      else 3)"

text \<open>
  \<open>text.split(/\s+/)\<close>: the pieces between maximal runs of white space, an empty piece
  where the text starts or ends with white space. Of the characters that \<open>\s\<close> matches,
  seven are below 256: tab, line feed, vertical tab, form feed, carriage return, space and
  the no-break space \<open>0xA0\<close>.
\<close>

definition isSpace :: "char \<Rightarrow> bool" where
  "isSpace c =
     (c \<in> set [CHR 0x20, CHR 0x09, CHR 0x0A, CHR 0x0B, CHR 0x0C, CHR 0x0D, CHR 0xA0])"

fun splitWS :: "bool \<Rightarrow> string \<Rightarrow> string \<Rightarrow> string list" where
  "splitWS inSep cur [] = [cur]"
| "splitWS inSep cur (c # cs) =
     (if isSpace c
        then (if inSep then splitWS True cur cs else cur # splitWS True [] cs)
      else splitWS False (cur @ [c]) cs)"

definition split_whitespace :: "string \<Rightarrow> string list" where
  "split_whitespace s = splitWS False [] s"

definition searchTermsOf :: "string \<Rightarrow> string" where
  "searchTermsOf txt =
     join '' OR '' (take 3 (filter (\<lambda>w. length w > 4) (split_whitespace txt)))"

definition similarJql :: "string \<Rightarrow> string \<Rightarrow> string" where
  "similarJql projectKey searchTerms =
     ''project = '' @ [dquote] @ projectKey @ [dquote] @ '' AND text ~ '' @ [dquote]
       @ searchTerms @ [dquote] @ '' ORDER BY updated DESC''"

text \<open>
  The \<open>try\<close> block: no search for an empty term string; a search that throws leaves
  \<open>similarIssues\<close> as it was before the call, empty.
\<close>

definition findSimilarIssues :: "JiraClient \<Rightarrow> string \<Rightarrow> string \<Rightarrow> SimilarIssue list" where
  "findSimilarIssues client txt projectKey =
     (let searchTerms = searchTermsOf txt in
      if searchTerms = [] then []
      else (case searchIssues client (similarJql projectKey searchTerms) 5 of
              Inl e \<Rightarrow> []
            | Inr found \<Rightarrow>
                map (\<lambda>issue. \<lparr>similar_key = issue_key issue,
                               similar_summary = issue_summary issue,
                               similarity = 7 / 10\<rparr>) found))"

definition suggestionsOf :: "string \<Rightarrow> string \<Rightarrow> string \<Rightarrow> SimilarIssue list \<Rightarrow> string list" where
  "suggestionsOf txt textLower ty similar =
     (if length txt < 50 then [''Consider adding more detail to the description''] else [])
     @ (if ty = ''Bug'' \<and> \<not> includes_str textLower ''reproduce''
          then [''Add steps to reproduce the bug''] else [])
     @ (if ty = ''Story'' \<and> \<not> includes_str textLower ''acceptance''
          then [''Consider adding acceptance criteria''] else [])
     @ (if length similar > 0
          then [''Found '' @ show_nat (length similar)
                  @ '' potentially related issue(s) - check for duplicates'']
        else [])"

definition analyzeIssueText :: "JiraClient \<Rightarrow> string \<Rightarrow> string \<Rightarrow> error + SmartIssueAnalysis" where
  "analyzeIssueText client txt projectKey =
     (let textLower = toLowerCase txt;
          ty = suggestTypeOf textLower;
          similar = findSimilarIssues client txt projectKey
      in Inr \<lparr>suggestedType = ty,
              suggestedPriority = suggestPriorityOf textLower,
              suggestedLabels = suggestLabelsOf textLower,
              suggestedComponents = [],
              estimatedStoryPoints = estimatePointsOf textLower,
              similarIssues = similar,
              suggestions = suggestionsOf txt textLower ty similar\<rparr>)"

section \<open>Release notes: categorisation\<close>

record ReleaseItem =
  item_key :: string
  item_summary :: string
  item_description :: "string option"

record Categories =
  features :: "ReleaseItem list"
  improvements :: "ReleaseItem list"
  bugFixes :: "ReleaseItem list"
  breakingChanges :: "ReleaseItem list"
  deprecated :: "ReleaseItem list"

definition toItem :: "JiraIssue \<Rightarrow> ReleaseItem" where
  "toItem issue =
     \<lparr>item_key = issue_key issue,
      item_summary = issue_summary issue,
      item_description = map_option (take 200) (issue_description issue)\<rparr>"

text \<open>\<open>issue.fields.labels?.map(l => l.toLowerCase()) || []\<close>.\<close>

definition lowerLabels :: "JiraIssue \<Rightarrow> string list" where
  "lowerLabels issue = (case labels issue of None \<Rightarrow> [] | Some ls \<Rightarrow> map toLowerCase ls)"

text \<open>\<open>Set.prototype.add\<close> on a set that iterates in insertion order.\<close>

definition set_add :: "string list \<Rightarrow> string \<Rightarrow> string list" where
  "set_add xs x = (if x \<in> set xs then xs else xs @ [x])"

definition contributor_step :: "string list \<Rightarrow> JiraIssue \<Rightarrow> string list" where
  "contributor_step cs issue =
     (let cs1 = (case assignee issue of None \<Rightarrow> cs | Some a \<Rightarrow> set_add cs (displayName a))
      in case reporter issue of None \<Rightarrow> cs1 | Some r \<Rightarrow> set_add cs1 (displayName r))"

text \<open>The categorisation of one issue; \<open>labels.includes\<close> is membership in the array.\<close>

definition categorize_step :: "Categories \<Rightarrow> JiraIssue \<Rightarrow> Categories" where
  "categorize_step cats issue =
     (let ty = toLowerCase (issuetype_name issue);
          ls = lowerLabels issue;
          item = toItem issue
      in if ''breaking-change'' \<in> set ls \<or> ''breaking'' \<in> set ls
           then cats\<lparr>breakingChanges := breakingChanges cats @ [item]\<rparr>
         else if ''deprecated'' \<in> set ls
           then cats\<lparr>deprecated := deprecated cats @ [item]\<rparr>
         else if ty = ''bug'' \<or> ty = ''defect''
           then cats\<lparr>bugFixes := bugFixes cats @ [item]\<rparr>
         else if ty = ''story'' \<or> ty = ''feature'' \<or> ty = ''new feature''
           then cats\<lparr>features := features cats @ [item]\<rparr>
         else cats\<lparr>improvements := improvements cats @ [item]\<rparr>)"

text \<open>The four tests of the categorisation, by name.\<close>

definition hasLabel :: "JiraIssue \<Rightarrow> string \<Rightarrow> bool" where
  "hasLabel issue l = (l \<in> set (lowerLabels issue))"

definition hasType :: "JiraIssue \<Rightarrow> string \<Rightarrow> bool" where
  "hasType issue t = (toLowerCase (issuetype_name issue) = t)"

definition isBreaking :: "JiraIssue \<Rightarrow> bool" where
  "isBreaking i = (hasLabel i ''breaking-change'' \<or> hasLabel i ''breaking'')"

definition isBugType :: "JiraIssue \<Rightarrow> bool" where
  "isBugType i = (hasType i ''bug'' \<or> hasType i ''defect'')"

definition isFeatureType :: "JiraIssue \<Rightarrow> bool" where
  "isFeatureType i = (hasType i ''story'' \<or> hasType i ''feature'' \<or> hasType i ''new feature'')"

definition release_step :: "Categories \<times> string list \<Rightarrow> JiraIssue \<Rightarrow> Categories \<times> string list" where
  "release_step acc issue = (categorize_step (fst acc) issue, contributor_step (snd acc) issue)"

definition noCategories :: Categories where
  "noCategories = \<lparr>features = [], improvements = [], bugFixes = [], breakingChanges = [],
     deprecated = []\<rparr>"

record ReleaseOptions =
  opt_projectKey :: string
  opt_version :: string
  opt_startDate :: "string option"
  opt_endDate :: "string option"
  opt_jqlFilter :: "string option"

text \<open>
  \<open>a || b\<close> on an optional string: an absent or empty \<open>a\<close> gives \<open>b\<close>.
\<close>

definition or_else :: "string option \<Rightarrow> string \<Rightarrow> string" where
  "or_else a b = (case a of None \<Rightarrow> b | Some s \<Rightarrow> if s = [] then b else s)"

definition releaseJql :: "ReleaseOptions \<Rightarrow> string \<Rightarrow> string \<Rightarrow> string" where
  "releaseJql options startDate endDate =
     or_else (opt_jqlFilter options)
       (''project = '' @ [dquote] @ opt_projectKey options @ [dquote]
          @ '' AND status IN (Done, Closed, Resolved) AND resolved >= '' @ [dquote] @ startDate
          @ [dquote] @ '' AND resolved <= '' @ [dquote] @ endDate @ [dquote])"

text \<open>
  Of the release notes, the part that the loop over the issues computes, with the version,
  the date, the summary sentence and the issue count. \<open>today\<close> and \<open>monthAgo\<close> are the
  dates that the source takes from the clock (today, and 30 days before). The highlights,
  the source-control statistics and the two rendered documents are not modelled.
\<close>

record ReleaseNotes =
  version :: string
  releaseDate :: string
  releaseSummary :: string
  categories :: Categories
  contributors :: "string list"
  statsTotalIssues :: nat

definition generateReleaseNotes ::
  "JiraClient \<Rightarrow> string \<Rightarrow> string \<Rightarrow> ReleaseOptions \<Rightarrow> error + ReleaseNotes" where
  "generateReleaseNotes client today monthAgo options =
     (let endDate = or_else (opt_endDate options) today;
          startDate = or_else (opt_startDate options) monthAgo
      in case searchIssues client (releaseJql options startDate endDate) 200 of
           Inl e \<Rightarrow> Inl e
         | Inr issues \<Rightarrow>
             (let acc = foldl release_step (noCategories, []) issues;
                  cats = fst acc
              in Inr \<lparr>version = opt_version options,
                      releaseDate = endDate,
                      releaseSummary =
                        ''Release '' @ opt_version options @ '' includes ''
                          @ show_nat (length issues) @ '' changes: ''
                          @ show_nat (length (features cats)) @ '' new features, ''
                          @ show_nat (length (improvements cats)) @ '' improvements, ''
                          @ ''and '' @ show_nat (length (bugFixes cats)) @ '' bug fixes.'',
                      categories = cats,
                      contributors = snd acc,
                      statsTotalIssues = length issues\<rparr>))"

section \<open>Notions of the specification\<close>




definition spec_hasLabelContaining :: "JiraIssue \<Rightarrow> string \<Rightarrow> bool" where
  "spec_hasLabelContaining issue k = list_ex (\<lambda>l. includes_str l k) (lowerLabels issue)"

section \<open>Sample data\<close>

definition sampleIssue :: "string \<Rightarrow> string \<Rightarrow> string option \<Rightarrow> string option \<Rightarrow> JiraIssue" where
  "sampleIssue k st who prio =
     \<lparr>issue_key = k, issue_summary = ''Summary of '' @ k, issue_description = None,
      status_name = st, priority = prio,
      assignee = map_option (\<lambda>n. \<lparr>displayName = n, emailAddress = []\<rparr>) who,
      reporter = None, issuetype_name = ''Task'', updated = ''2025-12-01'',
      labels = None\<rparr>"

text \<open>A tracker that answers every issue query with the same list and knows no board.\<close>

definition trackerOf :: "JiraIssue list \<Rightarrow> JiraClient" where
  "trackerOf issues =
     \<lparr>getSprintIssues = (\<lambda>sid. Inr issues),
      getSprints = (\<lambda>b. Inl (ApiError ''board not found'')),
      searchIssues = (\<lambda>q n. Inr issues)\<rparr>"

definition closedUnassigned :: JiraIssue where
  "closedUnassigned = sampleIssue ''P-3'' ''Closed'' None None"

definition smallSprint :: "JiraIssue list" where
  "smallSprint =
     [sampleIssue ''P-1'' ''Done'' (Some ''Ann'') (Some ''High''),
      sampleIssue ''P-2'' ''In Progress'' (Some ''Bob'') None,
      sampleIssue ''P-4'' ''Blocked'' None (Some ''Low''),
      sampleIssue ''P-5'' ''To Do'' (Some ''Ann'') (Some ''Low'')]"

definition blockedSprint :: "JiraIssue list" where
  "blockedSprint = replicate 12 (sampleIssue ''P-9'' ''Blocked'' (Some ''Cy'') (Some ''High''))"

definition sampleClock :: Clock where
  "sampleClock =
     \<lparr>now_ms = 1767139200000, now_iso = ''2025-12-31T00:00:00.000Z'',
      parse_ms = (\<lambda>s. if s = ''2025-12-01'' then Some 1764547200000 else None)\<rparr>"

definition teamIssues :: "JiraIssue list" where
  "teamIssues =
     [sampleIssue ''T-1'' ''In Progress'' (Some ''Ann'') (Some ''High''),
      sampleIssue ''T-2'' ''Peer Review'' (Some ''Bob'') (Some ''High''),
      sampleIssue ''T-3'' ''To Do'' (Some ''Ann'') (Some ''Low''),
      sampleIssue ''T-4'' ''To Do'' (Some ''Bob'') (Some ''Low''),
      sampleIssue ''T-5'' ''Progressing'' (Some ''Bob'') (Some ''Low''),
      sampleIssue ''T-6'' ''To Do'' None (Some ''Low'')]"



definition peerReviewIssue :: JiraIssue where
  "peerReviewIssue = sampleIssue ''T-2'' ''Peer Review'' (Some ''Bob'') (Some ''High'')"

definition unassignedIssue :: JiraIssue where
  "unassignedIssue = sampleIssue ''T-6'' ''To Do'' None (Some ''Low'')"

definition nonBreakingBug :: JiraIssue where
  "nonBreakingBug =
     (sampleIssue ''R-1'' ''Done'' (Some ''Ann'') (Some ''High''))
       \<lparr>issuetype_name := ''Bug'', labels := Some [''non-breaking'']\<rparr>"

definition breakingStory :: JiraIssue where
  "breakingStory =
     (sampleIssue ''R-2'' ''Done'' (Some ''Bob'') (Some ''High''))
       \<lparr>issuetype_name := ''Story'', labels := Some [''Breaking'']\<rparr>"

definition sampleOptions :: ReleaseOptions where
  "sampleOptions =
     \<lparr>opt_projectKey = ''WEB'', opt_version = ''1.2.0'', opt_startDate = None,
      opt_endDate = None, opt_jqlFilter = None\<rparr>"

text \<open>A tracker whose search always throws.\<close>

definition failingSearch :: JiraClient where
  "failingSearch =
     \<lparr>getSprintIssues = (\<lambda>sid. Inr []),
      getSprints = (\<lambda>b. Inr []),
      searchIssues = (\<lambda>q n. Inl (ApiError ''search unavailable''))\<rparr>"

definition crashReport :: string where
  "crashReport = ''Login button crashes always''"





section \<open>Facts about rounding to doubles\<close>

lemma pow2_powr: "pow2 e = 2 powr (real_of_int e)"
  by (simp add: pow2_def powr_int)

lemma pow2_pos: "0 < pow2 e"
  by (simp add: pow2_powr)



lemma pow2_less_iff: "pow2 a < pow2 b \<longleftrightarrow> a < b"
  by (simp add: pow2_powr)

lemma pow2_nat: "pow2 (int n) = 2 ^ n"
  by (simp add: pow2_def)

lemma pow_le_real: "(2::int) ^ n \<le> k \<Longrightarrow> (2::real) ^ n \<le> real_of_int k"
  by (metis of_int_le_iff of_int_numeral of_int_power)

lemma le_pow_real: "k \<le> (2::int) ^ n \<Longrightarrow> real_of_int k \<le> (2::real) ^ n"
  by (metis of_int_le_iff of_int_numeral of_int_power)

lemma binade_bounds:
  assumes "0 < x"
  shows "pow2 (binade x) \<le> x" and "x < pow2 (binade x + 1)"
proof -
  have "pow2 (binade x) \<le> x \<and> x < pow2 (binade x + 1)"
  proof (cases "1 \<le> x")
    case True
    then have p: "0 < \<lfloor>x\<rfloor>" by linarith
    from bitlen_bounds [OF p]
    have lo: "2 ^ nat (bitlen \<lfloor>x\<rfloor> - 1) \<le> \<lfloor>x\<rfloor>" and hi: "\<lfloor>x\<rfloor> < 2 ^ nat (bitlen \<lfloor>x\<rfloor>)"
      by simp_all
    have b1: "1 \<le> bitlen \<lfloor>x\<rfloor>"
      using p by (simp add: bitlen_alt_def)
    have "(2::real) ^ nat (bitlen \<lfloor>x\<rfloor> - 1) \<le> real_of_int \<lfloor>x\<rfloor>"
      using lo by (rule pow_le_real)
    moreover have "real_of_int \<lfloor>x\<rfloor> \<le> x"
      by simp
    ultimately have "(2::real) ^ nat (bitlen \<lfloor>x\<rfloor> - 1) \<le> x"
      by (rule order_trans)
    then have l: "pow2 (bitlen \<lfloor>x\<rfloor> - 1) \<le> x"
      using b1 by (simp add: pow2_def)
    have "\<lfloor>x\<rfloor> + 1 \<le> 2 ^ nat (bitlen \<lfloor>x\<rfloor>)"
      using hi by simp
    then have "real_of_int (\<lfloor>x\<rfloor> + 1) \<le> (2::real) ^ nat (bitlen \<lfloor>x\<rfloor>)"
      by (rule le_pow_real)
    moreover have "x < real_of_int (\<lfloor>x\<rfloor> + 1)"
      by linarith
    ultimately have "x < (2::real) ^ nat (bitlen \<lfloor>x\<rfloor>)"
      by (rule less_le_trans [rotated])
    then have h: "x < pow2 (bitlen \<lfloor>x\<rfloor>)"
      using b1 by (simp add: pow2_def)
    show ?thesis
      using True l h by (simp add: binade_def)
  next
    case False
    define c where "c = \<lceil>1 / x\<rceil>"
    have x1: "x < 1" using False by simp
    have inv: "1 < 1 / x" using assms x1 by simp
    have c2: "2 \<le> c" unfolding c_def using inv by linarith
    have p: "0 < c - 1" using c2 by simp
    define k where "k = bitlen (c - 1)"
    from bitlen_bounds [OF p]
    have lo: "2 ^ nat (k - 1) \<le> c - 1" and hi: "c - 1 < 2 ^ nat k"
      by (simp_all add: k_def)
    have k1: "1 \<le> k"
      using p by (simp add: k_def bitlen_alt_def)
    have cl: "real_of_int c - 1 < 1 / x" and cu: "1 / x \<le> real_of_int c"
      unfolding c_def by linarith+
    have "(2::real) ^ nat (k - 1) \<le> real_of_int (c - 1)"
      using lo by (rule pow_le_real)
    moreover have "real_of_int (c - 1) < 1 / x"
      using cl by simp
    ultimately have a: "2 ^ nat (k - 1) < 1 / x"
      by (rule le_less_trans)
    have "c \<le> 2 ^ nat k" using hi by simp
    then have "real_of_int c \<le> (2::real) ^ nat k"
      by (rule le_pow_real)
    with cu have b: "1 / x \<le> 2 ^ nat k"
      by (rule order_trans)
    have l: "pow2 (- k) \<le> x"
    proof -
      have "1 \<le> x * 2 ^ nat k"
        using b assms by (simp add: field_simps)
      then show ?thesis
        using k1 by (simp add: pow2_def field_simps)
    qed
    have h: "x < pow2 (- k + 1)"
    proof -
      have "x * 2 ^ nat (k - 1) < 1"
        using a assms by (simp add: field_simps)
      then show ?thesis
        using k1 by (auto simp add: pow2_def field_simps nat_diff_distrib)
    qed
    show ?thesis
      using False l h by (simp add: binade_def c_def k_def)
  qed
  then show "pow2 (binade x) \<le> x" and "x < pow2 (binade x + 1)"
    by simp_all
qed

lemma binade_unique:
  assumes "pow2 e \<le> x" and "x < pow2 (e + 1)"
  shows "binade x = e"
proof -
  have pos: "0 < x"
    using assms(1) pow2_pos [of e] by linarith
  note b = binade_bounds [OF pos]
  have "pow2 e < pow2 (binade x + 1)"
    using assms(1) b(2) by linarith
  then have 1: "e < binade x + 1"
    by (simp only: pow2_less_iff)
  have "pow2 (binade x) < pow2 (e + 1)"
    using assms(2) b(1) by linarith
  then have 2: "binade x < e + 1"
    by (simp only: pow2_less_iff)
  show ?thesis using 1 2 by simp
qed


lemma round_even_int: "round_even (real_of_int k) = k"
  by (simp add: round_even_def)



lemma rnd_zero: "rnd 0 = 0"
  by (simp add: rnd_def)


text \<open>Rounding a number of the binade \<open>e\<close>.\<close>

lemma rnd_at:
  assumes "pow2 e \<le> \<bar>x\<bar>" and "\<bar>x\<bar> < pow2 (e + 1)"
  shows "rnd x = pow2 (e - 52) * real_of_int (round_even (x / pow2 (e - 52)))"
proof -
  have "x \<noteq> 0"
    using assms(1) pow2_pos [of e] by auto
  then show ?thesis
    by (simp add: rnd_def binade_unique [OF assms] Let_def)
qed

lemma pow2_numerals: "pow2 52 = 2 ^ 52" "pow2 53 = 2 ^ 53"
  by (simp_all add: pow2_def)








text \<open>Integers below \<open>2\<^sup>5\<^sup>3\<close> in absolute value are doubles.\<close>

lemma rnd_nat:
  assumes "n \<le> 2 ^ 53"
  shows "rnd (real n) = real n"
proof (cases "n = 0")
  case True
  then show ?thesis by (simp add: rnd_zero)
next
  case False
  then have pos: "0 < real n" by simp
  define e where "e = binade (real n)"
  note b = binade_bounds [OF pos, folded e_def]
  have ax: "\<bar>real n\<bar> = real n" by simp
  have r: "rnd (real n) = pow2 (e - 52) * real_of_int (round_even (real n / pow2 (e - 52)))"
    using rnd_at [of e "real n"] b by (simp only: ax)
  have n53: "real n \<le> 2 ^ 53"
    using assms by (metis of_nat_le_iff of_nat_numeral of_nat_power)
  have "pow2 e \<le> pow2 53"
    using b(1) n53 by (simp only: pow2_numerals)
  then have e53: "e \<le> 53"
    using pow2_less_iff [of 53 e] by (simp add: not_less [symmetric])
  show ?thesis
  proof (cases "e \<le> 52")
    case True
    have u: "pow2 (e - 52) = 1 / 2 ^ nat (52 - e)"
      using True by (cases "e = 52") (simp_all add: pow2_def)
    have "real n / pow2 (e - 52) = real_of_int (int n * 2 ^ nat (52 - e))"
      by (simp add: u)
    then have "round_even (real n / pow2 (e - 52)) = int n * 2 ^ nat (52 - e)"
      by (simp only: round_even_int)
    then show ?thesis
      unfolding r by (simp add: u)
  next
    case False
    then have e: "e = 53" using e53 by simp
    have "real n = 2 ^ 53"
      using b(1) n53 unfolding e by (simp only: pow2_numerals)
    then show ?thesis
      unfolding r e by (simp add: pow2_def round_even_def)
  qed
qed





text \<open>Small integers are doubles.\<close>

lemma rnd_small:
  "rnd 1 = 1" "rnd 2 = 2" "rnd 3 = 3" "rnd 4 = 4" "rnd 10 = 10" "rnd 90 = 90" "rnd 100 = 100"
  using rnd_nat [of 1] rnd_nat [of 2] rnd_nat [of 3] rnd_nat [of 4] rnd_nat [of 10]
    rnd_nat [of 90] rnd_nat [of 100]
  by simp_all


section \<open>Facts about the string helpers\<close>

lemma lower_samples:
  "toLowerCase ''Done'' = ''done''"
  "toLowerCase ''Closed'' = ''closed''"
  "toLowerCase ''In Progress'' = ''in progress''"
  "toLowerCase ''Blocked'' = ''blocked''"
  "toLowerCase ''To Do'' = ''to do''"
  "toLowerCase ''Peer Review'' = ''peer review''"
  "toLowerCase ''Progressing'' = ''progressing''"
  by (simp_all add: toLowerCase_def lower_char_def upper_chars_def lower_chars_def)

section \<open>Sprint health: the classification loop\<close>

lemma breakdown_risk_steps:
  "t_breakdown (unassigned_step s i t) = t_breakdown t"
  "t_breakdown (priority_step s i t) = t_breakdown t"
  by (simp_all add: unassigned_step_def priority_step_def)

lemma bucket_step_breakdown:
  "t_breakdown (bucket_step s i t) =
     (if isDoneStatus s then (t_breakdown t)\<lparr>done_cnt := done_cnt (t_breakdown t) + 1\<rparr>
      else if isInProgressStatus s
        then (t_breakdown t)\<lparr>inProgress := inProgress (t_breakdown t) + 1\<rparr>
      else if isBlockedStatus s then (t_breakdown t)\<lparr>blocked := blocked (t_breakdown t) + 1\<rparr>
      else (t_breakdown t)\<lparr>todo := todo (t_breakdown t) + 1\<rparr>)"
  by (simp add: bucket_step_def Let_def)

lemma issue_step_breakdown:
  "t_breakdown (issue_step t i) = t_breakdown (bucket_step (toLowerCase (status_name i)) i t)"
  by (simp add: issue_step_def Let_def breakdown_risk_steps)

lemma status_sets_disjoint:
  "isInProgressStatus s \<Longrightarrow> \<not> isDoneStatus s"
  "isBlockedStatus s \<Longrightarrow> \<not> isDoneStatus s"
  "isBlockedStatus s \<Longrightarrow> \<not> isInProgressStatus s"
  by (auto simp: isDoneStatus_def isInProgressStatus_def isBlockedStatus_def)

text \<open>Each counter after the loop: its start value plus the number of issues of its bucket.\<close>

lemma foldl_breakdown:
  "t_breakdown (foldl issue_step t xs) =
     (t_breakdown t)\<lparr>
        done_cnt := done_cnt (t_breakdown t)
          + length (filter (\<lambda>i. isDoneStatus (toLowerCase (status_name i))) xs),
        inProgress := inProgress (t_breakdown t)
          + length (filter (\<lambda>i. isInProgressStatus (toLowerCase (status_name i))) xs),
        todo := todo (t_breakdown t)
          + length (filter (\<lambda>i. \<not> isDoneStatus (toLowerCase (status_name i))
                \<and> \<not> isInProgressStatus (toLowerCase (status_name i))
                \<and> \<not> isBlockedStatus (toLowerCase (status_name i))) xs),
        blocked := blocked (t_breakdown t)
          + length (filter (\<lambda>i. isBlockedStatus (toLowerCase (status_name i))) xs)\<rparr>"
proof (induction xs arbitrary: t)
  case Nil
  show ?case by simp
next
  case (Cons x xs)
  show ?case
    by (simp add: Cons.IH issue_step_breakdown bucket_step_breakdown status_sets_disjoint)
qed

text \<open>Every pass of the loop body raises the sum of the four counters by one.\<close>

lemma breakdown_sum:
  "done_cnt (t_breakdown (foldl issue_step t xs)) + inProgress (t_breakdown (foldl issue_step t xs))
     + todo (t_breakdown (foldl issue_step t xs)) + blocked (t_breakdown (foldl issue_step t xs))
   = done_cnt (t_breakdown t) + inProgress (t_breakdown t) + todo (t_breakdown t)
     + blocked (t_breakdown t) + length xs"
proof (induction xs arbitrary: t)
  case Nil
  show ?case by simp
next
  case (Cons x xs)
  show ?case
    by (simp add: Cons.IH issue_step_breakdown bucket_step_breakdown)
qed

lemma tally_total: "total (t_breakdown (tally_issues issues)) = length issues"
  by (simp add: tally_issues_def foldl_breakdown initial_tally_def)

lemma risks_bucket_step: "t_risks (bucket_step s i t) = t_risks t"
  by (simp add: bucket_step_def Let_def)

lemma issue_step_risks: "t_risks (issue_step t i) = t_risks t @ riskStringsOf i"
  by (simp add: issue_step_def Let_def priority_step_def unassigned_step_def risks_bucket_step
      riskStringsOf_def)

lemma foldl_risks: "t_risks (foldl issue_step t xs) = t_risks t @ concat (map riskStringsOf xs)"
  by (induction xs arbitrary: t) (simp_all add: issue_step_risks)

text \<open>The risks collected by the loop, issue by issue and in order.\<close>

lemma tally_risks: "t_risks (tally_issues issues) = concat (map riskStringsOf issues)"
  by (simp add: tally_issues_def foldl_risks initial_tally_def)

section \<open>Sprint health: the result\<close>

text \<open>Once the sprint's issues are fetched, the analysis returns.\<close>

lemma analyze_returns:
  "getSprintIssues client sid = Inr issues \<Longrightarrow>
     \<exists>r. analyzeSprintHealth client sid boardId = Inr r"
  by (simp add: analyzeSprintHealth_def Let_def)

lemma analyze_fails:
  "getSprintIssues client sid = Inl e \<Longrightarrow> analyzeSprintHealth client sid boardId = Inl e"
  by (simp add: analyzeSprintHealth_def)

lemma analyze_fields:
  assumes "getSprintIssues client sid = Inr issues"
    and "analyzeSprintHealth client sid boardId = Inr r"
  shows "issueBreakdown r = t_breakdown (tally_issues issues)"
    and "completionRate (metrics r) = completionRateOf (t_breakdown (tally_issues issues))"
    and "healthScore r = max 0 (min 100 (rawHealthScore (t_breakdown (tally_issues issues))
           (length issues) (completionRateOf (t_breakdown (tally_issues issues)))))"
    and "healthStatus r = healthStatusOf (healthScore r)"
    and "risks r = t_risks (tally_issues issues)
           @ (if wipOverload (t_breakdown (tally_issues issues)) (length issues)
                then [''Too many issues in progress (WIP overload)''] else [])
           @ (if moreRemaining (t_breakdown (tally_issues issues))
                  (completionRateOf (t_breakdown (tally_issues issues)))
                then [''More work remaining than completed''] else [])"
  using assms by (auto simp add: analyzeSprintHealth_def Let_def)

lemma clamp_bounds: "0 \<le> max 0 (min 100 (x::int)) \<and> max 0 (min 100 x) \<le> 100"
  by simp

text \<open>
  Claim C1. For every issue collection that \<open>analyzeSprintHealth\<close> fetches, the returned
  breakdown has \<open>total\<close> equal to the number of issues and
  \<open>done + inProgress + todo + blocked = total\<close>. Each counter is the number of issues
  whose lower-cased status lies in its set (done, closed, resolved; in progress, in review,
  code review; blocked, impediment; anything else for \<open>todo\<close>), so every issue is counted
  in exactly one bucket.
\<close>

theorem C1_breakdown_partition:
  assumes "getSprintIssues client sid = Inr issues"
  shows "\<exists>r. analyzeSprintHealth client sid boardId = Inr r
     \<and> total (issueBreakdown r) = length issues
     \<and> done_cnt (issueBreakdown r) + inProgress (issueBreakdown r) + todo (issueBreakdown r)
         + blocked (issueBreakdown r) = total (issueBreakdown r)
     \<and> done_cnt (issueBreakdown r)
         = length (filter (\<lambda>i. toLowerCase (status_name i)
               \<in> {''done'', ''closed'', ''resolved''}) issues)
     \<and> inProgress (issueBreakdown r)
         = length (filter (\<lambda>i. toLowerCase (status_name i)
               \<in> {''in progress'', ''in review'', ''code review''}) issues)
     \<and> blocked (issueBreakdown r)
         = length (filter (\<lambda>i. toLowerCase (status_name i)
               \<in> {''blocked'', ''impediment''}) issues)
     \<and> todo (issueBreakdown r)
         = length (filter (\<lambda>i. toLowerCase (status_name i)
               \<notin> {''done'', ''closed'', ''resolved'', ''in progress'', ''in review'',
                   ''code review'', ''blocked'', ''impediment''}) issues)"
proof -
  obtain r where r: "analyzeSprintHealth client sid boardId = Inr r"
    using analyze_returns [OF assms] by blast
  have b: "issueBreakdown r = t_breakdown (tally_issues issues)"
    by (rule analyze_fields(1) [OF assms r])
  have s: "done_cnt (issueBreakdown r) + inProgress (issueBreakdown r) + todo (issueBreakdown r)
         + blocked (issueBreakdown r) = total (issueBreakdown r)"
    unfolding b tally_total
    by (simp add: tally_issues_def breakdown_sum initial_tally_def)
  have c: "done_cnt (issueBreakdown r)
         = length (filter (\<lambda>i. toLowerCase (status_name i)
               \<in> {''done'', ''closed'', ''resolved''}) issues)"
     "inProgress (issueBreakdown r)
         = length (filter (\<lambda>i. toLowerCase (status_name i)
               \<in> {''in progress'', ''in review'', ''code review''}) issues)"
     "blocked (issueBreakdown r)
         = length (filter (\<lambda>i. toLowerCase (status_name i)
               \<in> {''blocked'', ''impediment''}) issues)"
    unfolding b
    by (simp_all add: tally_issues_def foldl_breakdown initial_tally_def isDoneStatus_def
        isInProgressStatus_def isBlockedStatus_def)
  have d: "todo (issueBreakdown r)
         = length (filter (\<lambda>i. toLowerCase (status_name i)
               \<notin> {''done'', ''closed'', ''resolved'', ''in progress'', ''in review'',
                   ''code review'', ''blocked'', ''impediment''}) issues)"
    unfolding b
    by (simp add: tally_issues_def foldl_breakdown initial_tally_def isDoneStatus_def
        isInProgressStatus_def isBlockedStatus_def)
  show ?thesis
    using r b s c d tally_total by simp
qed

text \<open>
  A sprint of four issues, one in each bucket.
\<close>

lemma small_status:
  "map (\<lambda>i. toLowerCase (status_name i)) smallSprint
     = [''done'', ''in progress'', ''blocked'', ''to do'']"
  by (simp add: smallSprint_def sampleIssue_def lower_samples)

lemma count_by_status:
  "length (filter (\<lambda>i. toLowerCase (status_name i) \<in> S) xs)
     = length (filter (\<lambda>s. s \<in> S) (map (\<lambda>i. toLowerCase (status_name i)) xs))"
  by (induction xs) simp_all

lemma count_by_status_not:
  "length (filter (\<lambda>i. toLowerCase (status_name i) \<notin> S) xs)
     = length (filter (\<lambda>s. s \<notin> S) (map (\<lambda>i. toLowerCase (status_name i)) xs))"
  by (induction xs) simp_all

theorem C1_breakdown_partition_witness:
  "getSprintIssues (trackerOf smallSprint) 7 = Inr smallSprint
   \<and> (\<exists>r. analyzeSprintHealth (trackerOf smallSprint) 7 None = Inr r
        \<and> issueBreakdown r = \<lparr>total = 4, done_cnt = 1, inProgress = 1, todo = 1, blocked = 1\<rparr>
        \<and> done_cnt (issueBreakdown r) + inProgress (issueBreakdown r) + todo (issueBreakdown r)
            + blocked (issueBreakdown r) = total (issueBreakdown r))"
proof -
  have h: "getSprintIssues (trackerOf smallSprint) 7 = Inr smallSprint"
    by (simp add: trackerOf_def)
  from C1_breakdown_partition [OF h, of None]
  have "\<exists>r. analyzeSprintHealth (trackerOf smallSprint) 7 None = Inr r
        \<and> issueBreakdown r = \<lparr>total = 4, done_cnt = 1, inProgress = 1, todo = 1, blocked = 1\<rparr>
        \<and> done_cnt (issueBreakdown r) + inProgress (issueBreakdown r) + todo (issueBreakdown r)
            + blocked (issueBreakdown r) = total (issueBreakdown r)"
  proof (elim exE conjE)
    fix r
    assume r: "analyzeSprintHealth (trackerOf smallSprint) 7 None = Inr r"
      and t: "total (issueBreakdown r) = length smallSprint"
      and s: "done_cnt (issueBreakdown r) + inProgress (issueBreakdown r)
            + todo (issueBreakdown r) + blocked (issueBreakdown r) = total (issueBreakdown r)"
      and d: "done_cnt (issueBreakdown r)
         = length (filter (\<lambda>i. toLowerCase (status_name i)
               \<in> {''done'', ''closed'', ''resolved''}) smallSprint)"
      and p: "inProgress (issueBreakdown r)
         = length (filter (\<lambda>i. toLowerCase (status_name i)
               \<in> {''in progress'', ''in review'', ''code review''}) smallSprint)"
      and b: "blocked (issueBreakdown r)
         = length (filter (\<lambda>i. toLowerCase (status_name i)
               \<in> {''blocked'', ''impediment''}) smallSprint)"
      and o: "todo (issueBreakdown r)
         = length (filter (\<lambda>i. toLowerCase (status_name i)
               \<notin> {''done'', ''closed'', ''resolved'', ''in progress'', ''in review'',
                   ''code review'', ''blocked'', ''impediment''}) smallSprint)"
    have t': "total (issueBreakdown r) = 4"
      by (simp add: t smallSprint_def)
    have d': "done_cnt (issueBreakdown r) = 1"
      unfolding d count_by_status small_status by simp
    have p': "inProgress (issueBreakdown r) = 1"
      unfolding p count_by_status small_status by simp
    have b': "blocked (issueBreakdown r) = 1"
      unfolding b count_by_status small_status by simp
    have o': "todo (issueBreakdown r) = 1"
      unfolding o count_by_status_not small_status by simp
    have e: "issueBreakdown r = \<lparr>total = 4, done_cnt = 1, inProgress = 1, todo = 1, blocked = 1\<rparr>"
      using t' d' p' b' o' by (cases "issueBreakdown r") simp
    show ?thesis
      by (intro exI [of _ r] conjI r e s)
  qed
  then show ?thesis
    using h by (rule conjI [rotated])
qed

text \<open>
  Claim C2. For every issue collection, of any size and with any number of blocked
  issues, the returned \<open>healthScore\<close> lies in the closed interval from 0 to 100: it is
  100 less \<open>max(0, 50 - completionRate)\<close>, less 5 per blocked issue, less 10 for WIP
  overload, less 10 when more work remains than is completed, clamped into that interval.
\<close>

theorem C2_healthScore_clamped:
  assumes "getSprintIssues client sid = Inr issues"
  shows "\<exists>r. analyzeSprintHealth client sid boardId = Inr r
     \<and> 0 \<le> healthScore r \<and> healthScore r \<le> 100
     \<and> healthScore r =
         max 0 (min 100
           (100 - max 0 (50 - completionRate (metrics r))
              - int (blocked (issueBreakdown r)) * 5
              - (if real (inProgress (issueBreakdown r)) > real (length issues) * (4 / 10)
                   then 10 else 0)
              - (if todo (issueBreakdown r) > done_cnt (issueBreakdown r)
                     \<and> completionRate (metrics r) < 50 then 10 else 0)))"
proof -
  obtain r where r: "analyzeSprintHealth client sid boardId = Inr r"
    using analyze_returns [OF assms] by blast
  note f = analyze_fields [OF assms r]
  have formula: "healthScore r =
         max 0 (min 100
           (100 - max 0 (50 - completionRate (metrics r))
              - int (blocked (issueBreakdown r)) * 5
              - (if real (inProgress (issueBreakdown r)) > real (length issues) * (4 / 10)
                   then 10 else 0)
              - (if todo (issueBreakdown r) > done_cnt (issueBreakdown r)
                     \<and> completionRate (metrics r) < 50 then 10 else 0)))"
    by (simp only: f rawHealthScore_def wipOverload_def moreRemaining_def)
  have bounds: "0 \<le> healthScore r \<and> healthScore r \<le> 100"
    by (simp only: f(3) clamp_bounds)
  show ?thesis
    using r formula bounds by blast
qed

text \<open>
  Twelve blocked issues and nothing else: the deductions take the score to \<open>-10\<close>, and
  the returned score is 0.
\<close>

lemma blocked_tally:
  "t_breakdown (tally_issues blockedSprint) =
     \<lparr>total = 12, done_cnt = 0, inProgress = 0, todo = 0, blocked = 12\<rparr>"
  unfolding tally_issues_def foldl_breakdown
  by (simp add: blockedSprint_def initial_tally_def sampleIssue_def lower_samples
      isDoneStatus_def isInProgressStatus_def isBlockedStatus_def)

lemma blocked_rate:
  "completionRateOf \<lparr>total = 12, done_cnt = 0, inProgress = 0, todo = 0, blocked = 12\<rparr> = 0"
  by (simp add: completionRateOf_def d_div_def d_mul_def rnd_zero rnd_small js_round_def)

theorem C2_healthScore_clamped_witness:
  "getSprintIssues (trackerOf blockedSprint) 7 = Inr blockedSprint
   \<and> (\<exists>r. analyzeSprintHealth (trackerOf blockedSprint) 7 None = Inr r
        \<and> blocked (issueBreakdown r) = 12
        \<and> 100 - max 0 (50 - completionRate (metrics r)) - int (blocked (issueBreakdown r)) * 5
             = - 10
        \<and> healthScore r = 0
        \<and> 0 \<le> healthScore r \<and> healthScore r \<le> 100)"
proof -
  have h: "getSprintIssues (trackerOf blockedSprint) 7 = Inr blockedSprint"
    by (simp add: trackerOf_def)
  from C2_healthScore_clamped [OF h, of None]
  have "\<exists>r. analyzeSprintHealth (trackerOf blockedSprint) 7 None = Inr r
        \<and> blocked (issueBreakdown r) = 12
        \<and> 100 - max 0 (50 - completionRate (metrics r)) - int (blocked (issueBreakdown r)) * 5
             = - 10
        \<and> healthScore r = 0
        \<and> 0 \<le> healthScore r \<and> healthScore r \<le> 100"
  proof (elim exE conjE)
    fix r
    assume r: "analyzeSprintHealth (trackerOf blockedSprint) 7 None = Inr r"
      and lo: "0 \<le> healthScore r" and hi: "healthScore r \<le> 100"
      and formula: "healthScore r =
         max 0 (min 100
           (100 - max 0 (50 - completionRate (metrics r))
              - int (blocked (issueBreakdown r)) * 5
              - (if real (inProgress (issueBreakdown r)) > real (length blockedSprint) * (4 / 10)
                   then 10 else 0)
              - (if todo (issueBreakdown r) > done_cnt (issueBreakdown r)
                     \<and> completionRate (metrics r) < 50 then 10 else 0)))"
    note f = analyze_fields [OF h r]
    have b: "issueBreakdown r = \<lparr>total = 12, done_cnt = 0, inProgress = 0, todo = 0, blocked = 12\<rparr>"
      by (simp only: f(1) blocked_tally)
    have c: "completionRate (metrics r) = 0"
      by (simp only: f(2) blocked_tally blocked_rate)
    have n: "blocked (issueBreakdown r) = 12"
      by (simp add: b)
    have raw: "100 - max 0 (50 - completionRate (metrics r))
        - int (blocked (issueBreakdown r)) * 5 = - 10"
      by (simp add: c n)
    have z: "healthScore r = 0"
      by (subst formula) (simp add: b c)
    show ?thesis
      by (intro exI [of _ r] conjI r n raw z lo hi)
  qed
  then show ?thesis
    using h by (rule conjI [rotated])
qed






lemma closed_tally:
  "t_breakdown (tally_issues [closedUnassigned]) =
     \<lparr>total = 1, done_cnt = 1, inProgress = 0, todo = 0, blocked = 0\<rparr>"
  by (simp add: tally_issues_def initial_tally_def issue_step_breakdown bucket_step_breakdown
      closedUnassigned_def sampleIssue_def lower_samples isDoneStatus_def)

lemma closed_risks:
  "t_risks (tally_issues [closedUnassigned]) =
     [''Unassigned issue: P-3'', ''No priority set: P-3'']"
  by (simp add: tally_risks riskStringsOf_def closedUnassigned_def sampleIssue_def lower_samples)

lemma closed_rate:
  "completionRateOf \<lparr>total = 1, done_cnt = 1, inProgress = 0, todo = 0, blocked = 0\<rparr> = 100"
  by (simp add: completionRateOf_def d_div_def d_mul_def rnd_zero rnd_small js_round_def)

text \<open>
  The risks of a sprint: for each issue in order, an "Unassigned issue" string when the
  assignee is absent and the lower-cased status is not the one word \<open>done\<close>, then a
  "No priority set" string when the priority is absent and the status is not that word;
  the two sprint-level risks follow.
\<close>

lemma analyze_risks_prefix:
  assumes "getSprintIssues client sid = Inr issues"
    and "analyzeSprintHealth client sid boardId = Inr r"
  shows "take (length (concat (map riskStringsOf issues))) (risks r)
           = concat (map riskStringsOf issues)"
  by (simp add: analyze_fields(5) [OF assms] tally_risks)

text \<open>
  The part of the risk rule that holds: an issue with no assignee (no priority) whose
  status is outside the done bucket gets its "Unassigned issue" ("No priority set")
  string, and an issue whose lower-cased status is the word \<open>done\<close> gets neither.
\<close>

lemma open_issue_is_flagged:
  assumes "getSprintIssues client sid = Inr issues"
    and "analyzeSprintHealth client sid boardId = Inr r"
    and "i \<in> set issues"
    and "\<not> isDoneStatus (toLowerCase (status_name i))"
  shows "assignee i = None \<Longrightarrow> (''Unassigned issue: '' @ issue_key i) \<in> set (risks r)"
    and "priority i = None \<Longrightarrow> (''No priority set: '' @ issue_key i) \<in> set (risks r)"
proof -
  have open_status: "toLowerCase (status_name i) \<noteq> ''done''"
    using assms(4) by (auto simp add: isDoneStatus_def)
  have all: "set (concat (map riskStringsOf issues)) \<subseteq> set (risks r)"
    by (simp add: analyze_fields(5) [OF assms(1,2)] tally_risks)
  show "(''Unassigned issue: '' @ issue_key i) \<in> set (risks r)" if "assignee i = None"
  proof -
    have "(''Unassigned issue: '' @ issue_key i) \<in> set (riskStringsOf i)"
      using that open_status by (simp add: riskStringsOf_def)
    then have "(''Unassigned issue: '' @ issue_key i) \<in> set (concat (map riskStringsOf issues))"
      using assms(3) by auto
    then show ?thesis
      using all by blast
  qed
  show "(''No priority set: '' @ issue_key i) \<in> set (risks r)" if "priority i = None"
  proof -
    have "(''No priority set: '' @ issue_key i) \<in> set (riskStringsOf i)"
      using that open_status by (simp add: riskStringsOf_def)
    then have "(''No priority set: '' @ issue_key i) \<in> set (concat (map riskStringsOf issues))"
      using assms(3) by auto
    then show ?thesis
      using all by blast
  qed
qed

lemma done_word_is_not_flagged:
  "toLowerCase (status_name i) = ''done'' \<Longrightarrow> riskStringsOf i = []"
  by (simp add: riskStringsOf_def)

text \<open>
  Claim C6. An "unassigned" risk is appended for every issue with no assignee whose status
  is not in the done bucket (done, closed, resolved), a "no priority set" risk for every
  issue with no priority whose status is not in that bucket, and none for an issue whose
  status is in the bucket. The code tests the status against \<open>done\<close> alone: a closed issue
  with neither assignee nor priority is counted as done and still gets both risks.
\<close>

theorem C6_closed_issue_flagged:
  "map_sum id (\<lambda>r. (done_cnt (issueBreakdown r), risks r))
     (analyzeSprintHealth (trackerOf [closedUnassigned]) 7 None)
   = Inr (1, [''Unassigned issue: P-3'', ''No priority set: P-3''])"
proof -
  have g: "getSprintIssues (trackerOf [closedUnassigned]) 7 = Inr [closedUnassigned]"
    by (simp add: trackerOf_def)
  obtain r where r: "analyzeSprintHealth (trackerOf [closedUnassigned]) 7 None = Inr r"
    using analyze_returns [OF g] by blast
  note f = analyze_fields [OF g r]
  have d: "done_cnt (issueBreakdown r) = 1"
    by (simp add: f(1) closed_tally)
  have k: "risks r = [''Unassigned issue: P-3'', ''No priority set: P-3'']"
    by (simp add: f(5) closed_tally closed_risks closed_rate wipOverload_def moreRemaining_def)
  show ?thesis
    by (simp add: r d k)
qed

section \<open>Workload dashboard: grouping and member metrics\<close>

lemma map_push_keys:
  "map fst (map_push m k v) = (if k \<in> set (map fst m) then map fst m else map fst m @ [k])"
  by (induction m k v rule: map_push.induct) auto

lemma map_push_distinct: "distinct (map fst m) \<Longrightarrow> distinct (map fst (map_push m k v))"
  by (simp add: map_push_keys)

lemma map_of_map_push:
  "map_of (map_push m k v) k' =
     (if k' = k then Some ((case map_of m k of None \<Rightarrow> [] | Some vs \<Rightarrow> vs) @ [v])
      else map_of m k')"
  by (induction m k v rule: map_push.induct) auto

lemma group_step_distinct: "distinct (map fst m) \<Longrightarrow> distinct (map fst (group_step m i))"
  by (simp add: group_step_def map_push_distinct split: option.splits)

lemma group_fold_distinct:
  "distinct (map fst m) \<Longrightarrow> distinct (map fst (foldl group_step m xs))"
  by (induction xs arbitrary: m) (simp_all add: group_step_distinct)

lemma map_of_group_step:
  "map_of (group_step m i) k =
     (if assigneeName i = Some k
        then Some ((case map_of m k of None \<Rightarrow> [] | Some vs \<Rightarrow> vs) @ [i])
      else map_of m k)"
  by (auto simp add: group_step_def assigneeName_def map_of_map_push split: option.splits)

lemma map_of_group_fold:
  "map_of (foldl group_step m xs) k =
     (case map_of m k of
        None \<Rightarrow> (if filter (\<lambda>i. assigneeName i = Some k) xs = [] then None
                  else Some (filter (\<lambda>i. assigneeName i = Some k) xs))
      | Some vs \<Rightarrow> Some (vs @ filter (\<lambda>i. assigneeName i = Some k) xs))"
proof (induction xs arbitrary: m)
  case Nil
  show ?case by (simp split: option.splits)
next
  case (Cons x xs)
  show ?case
    by (simp add: Cons.IH map_of_group_step split: option.splits)
qed

lemma group_entry:
  assumes "(k, vs) \<in> set (groupByAssignee issues)"
  shows "vs = filter (\<lambda>i. assigneeName i = Some k) issues" and "vs \<noteq> []"
proof -
  have d: "distinct (map fst (groupByAssignee issues))"
    by (simp add: groupByAssignee_def group_fold_distinct)
  have "map_of (groupByAssignee issues) k = Some vs"
    using assms d by simp
  then have e: "(if filter (\<lambda>i. assigneeName i = Some k) issues = [] then None
                  else Some (filter (\<lambda>i. assigneeName i = Some k) issues)) = Some vs"
    by (simp add: groupByAssignee_def map_of_group_fold)
  show "vs = filter (\<lambda>i. assigneeName i = Some k) issues"
    using e by (simp split: if_splits)
  show "vs \<noteq> []"
    using e by (auto split: if_splits)
qed

lemma group_unassigned: "assignee i = None \<Longrightarrow> group_step m i = m"
  by (simp add: group_step_def)

lemma group_fold_filter:
  "foldl group_step m (filter (\<lambda>i. assignee i \<noteq> None) xs) = foldl group_step m xs"
  by (induction xs arbitrary: m) (auto simp add: group_unassigned)

lemma group_filter_assigned:
  "groupByAssignee (filter (\<lambda>i. assignee i \<noteq> None) issues) = groupByAssignee issues"
  unfolding groupByAssignee_def by (rule group_fold_filter)

lemma member_step_assigned: "assignedIssues (member_step clk m i) = assignedIssues m"
  by (simp add: member_step_def Let_def)

lemma member_step_inProgress:
  "inProgressIssues (member_step clk m i) =
     inProgressIssues m + (if countsInProgress (toLowerCase (status_name i)) then 1 else 0)"
  by (simp add: member_step_def Let_def)

lemma member_fold_assigned:
  "assignedIssues (foldl (member_step clk) m xs) = assignedIssues m"
  by (induction xs arbitrary: m) (simp_all add: member_step_assigned)

lemma member_fold_inProgress:
  "inProgressIssues (foldl (member_step clk) m xs) =
     inProgressIssues m
       + length (filter (\<lambda>i. countsInProgress (toLowerCase (status_name i))) xs)"
  by (induction xs arbitrary: m) (simp_all add: member_step_inProgress)

lemma memberWorkload_fields:
  "teamMember (memberWorkload clk (k, vs)) = k"
  "assignedIssues (memberMetrics (memberWorkload clk (k, vs))) = length vs"
  "inProgressIssues (memberMetrics (memberWorkload clk (k, vs))) =
     length (filter (\<lambda>i. countsInProgress (toLowerCase (status_name i))) vs)"
  "workloadStatus (memberWorkload clk (k, vs)) = workloadStatusOf (length vs)"
  by (simp_all add: memberWorkload_def Let_def member_fold_assigned member_fold_inProgress)

lemma dashboard_returns:
  "searchIssues client (dashboardJql pk sp) 200 = Inr issues \<Longrightarrow>
     \<exists>d. generateWorkloadDashboard client clk pk sp = Inr d"
  by (simp add: generateWorkloadDashboard_def Let_def)

lemma dashboard_fields:
  assumes "searchIssues client (dashboardJql pk sp) 200 = Inr issues"
    and "generateWorkloadDashboard client clk pk sp = Inr d"
  shows "workloadDistribution d = map (memberWorkload clk) (groupByAssignee issues)"
    and "teamSize d = length (groupByAssignee issues)"
    and "totalIssues d = length issues"
    and "balanceScore d = js_round (balanceScoreOf
           (map (\<lambda>w. assignedIssues (memberMetrics w)) (workloadDistribution d)))"
    and "averageWorkload d = d_div (real_of_int (js_round (d_mul (avgWorkloadOf
           (map (\<lambda>w. assignedIssues (memberMetrics w)) (workloadDistribution d))) 10))) 10"
  using assms by (auto simp add: generateWorkloadDashboard_def Let_def)

lemma group_sum_push:
  "sum_list (map (\<lambda>e. length (snd e)) (map_push m k v))
     = sum_list (map (\<lambda>e. length (snd e)) m) + 1"
  by (induction m k v rule: map_push.induct) auto

lemma group_sum_fold:
  "sum_list (map (\<lambda>e. length (snd e)) (foldl group_step m xs))
     = sum_list (map (\<lambda>e. length (snd e)) m) + length (filter (\<lambda>i. assignee i \<noteq> None) xs)"
  by (induction xs arbitrary: m)
     (auto simp add: group_step_def group_sum_push split: option.splits)

lemma assigned_counts_groups:
  assumes "searchIssues client (dashboardJql pk sp) 200 = Inr issues"
    and "generateWorkloadDashboard client clk pk sp = Inr d"
  shows "assignedCounts d = map (\<lambda>e. length (snd e)) (groupByAssignee issues)"
  by (simp add: assignedCounts_def dashboard_fields(1) [OF assms] memberWorkload_def Let_def
      member_fold_assigned comp_def)

lemma assigned_counts_sum:
  assumes "searchIssues client (dashboardJql pk sp) 200 = Inr issues"
    and "generateWorkloadDashboard client clk pk sp = Inr d"
  shows "sum_list (assignedCounts d) = length (filter (\<lambda>i. assignee i \<noteq> None) issues)"
  unfolding assigned_counts_groups [OF assms] groupByAssignee_def group_sum_fold
  by simp

lemma member_entry:
  assumes "searchIssues client (dashboardJql pk sp) 200 = Inr issues"
    and "generateWorkloadDashboard client clk pk sp = Inr d"
    and "m \<in> set (workloadDistribution d)"
  shows "m = memberWorkload clk (teamMember m,
           filter (\<lambda>i. assigneeName i = Some (teamMember m)) issues)"
proof -
  obtain k vs where e: "(k, vs) \<in> set (groupByAssignee issues)" and m: "m = memberWorkload clk (k, vs)"
    using assms(3) unfolding dashboard_fields(1) [OF assms(1,2)] by auto
  have k: "teamMember m = k"
    by (simp add: m memberWorkload_fields)
  show ?thesis
    using group_entry(1) [OF e] m k by simp
qed

text \<open>
  Claim C5. For every team member of the dashboard, \<open>workloadStatus\<close> is decided by the
  number of assigned issues alone, with inclusive upper bounds: at most 2 is underutilized,
  at most 5 optimal, at most 8 heavy, more than 8 overloaded; so exactly 2 gives
  underutilized, exactly 3 optimal, exactly 8 heavy and exactly 9 overloaded. The count is
  the number of fetched issues assigned to the member's display name.
\<close>

theorem C5_workloadStatus_thresholds:
  assumes "searchIssues client (dashboardJql pk sp) 200 = Inr issues"
  shows "\<exists>d. generateWorkloadDashboard client clk pk sp = Inr d
     \<and> (\<forall>m \<in> set (workloadDistribution d).
           assignedIssues (memberMetrics m)
             = length (filter (\<lambda>i. assigneeName i = Some (teamMember m)) issues)
         \<and> workloadStatus m =
             (if assignedIssues (memberMetrics m) \<le> 2 then underutilized
              else if assignedIssues (memberMetrics m) \<le> 5 then optimal
              else if assignedIssues (memberMetrics m) \<le> 8 then heavy
              else overloaded_ws)
         \<and> (assignedIssues (memberMetrics m) = 2 \<longrightarrow> workloadStatus m = underutilized)
         \<and> (assignedIssues (memberMetrics m) = 3 \<longrightarrow> workloadStatus m = optimal)
         \<and> (assignedIssues (memberMetrics m) = 8 \<longrightarrow> workloadStatus m = heavy)
         \<and> (assignedIssues (memberMetrics m) = 9 \<longrightarrow> workloadStatus m = overloaded_ws))"
proof -
  obtain d where d: "generateWorkloadDashboard client clk pk sp = Inr d"
    using dashboard_returns [OF assms] by blast
  have "assignedIssues (memberMetrics m)
             = length (filter (\<lambda>i. assigneeName i = Some (teamMember m)) issues)
         \<and> workloadStatus m = workloadStatusOf (assignedIssues (memberMetrics m))"
    if "m \<in> set (workloadDistribution d)" for m
  proof -
    note e = member_entry [OF assms d that]
    have a: "assignedIssues (memberMetrics m)
             = length (filter (\<lambda>i. assigneeName i = Some (teamMember m)) issues)"
      by (subst e) (simp only: memberWorkload_fields)
    have "workloadStatus m = workloadStatusOf
            (length (filter (\<lambda>i. assigneeName i = Some (teamMember m)) issues))"
      by (subst e) (simp only: memberWorkload_fields)
    then show ?thesis
      using a by simp
  qed
  then have "\<forall>m \<in> set (workloadDistribution d).
           assignedIssues (memberMetrics m)
             = length (filter (\<lambda>i. assigneeName i = Some (teamMember m)) issues)
         \<and> workloadStatus m =
             (if assignedIssues (memberMetrics m) \<le> 2 then underutilized
              else if assignedIssues (memberMetrics m) \<le> 5 then optimal
              else if assignedIssues (memberMetrics m) \<le> 8 then heavy
              else overloaded_ws)
         \<and> (assignedIssues (memberMetrics m) = 2 \<longrightarrow> workloadStatus m = underutilized)
         \<and> (assignedIssues (memberMetrics m) = 3 \<longrightarrow> workloadStatus m = optimal)
         \<and> (assignedIssues (memberMetrics m) = 8 \<longrightarrow> workloadStatus m = heavy)
         \<and> (assignedIssues (memberMetrics m) = 9 \<longrightarrow> workloadStatus m = overloaded_ws)"
    by (simp add: workloadStatusOf_def)
  then show ?thesis
    using d by blast
qed

lemma team_groups:
  "groupByAssignee teamIssues =
     [(''Ann'', [sampleIssue ''T-1'' ''In Progress'' (Some ''Ann'') (Some ''High''),
                 sampleIssue ''T-3'' ''To Do'' (Some ''Ann'') (Some ''Low'')]),
      (''Bob'', [sampleIssue ''T-2'' ''Peer Review'' (Some ''Bob'') (Some ''High''),
                 sampleIssue ''T-4'' ''To Do'' (Some ''Bob'') (Some ''Low''),
                 sampleIssue ''T-5'' ''Progressing'' (Some ''Bob'') (Some ''Low'')])]"
  by (simp add: groupByAssignee_def group_step_def teamIssues_def sampleIssue_def)


text \<open>
  A team of two on six fetched issues: Ann has 2 issues and is underutilized, Bob has 3 and
  is optimal.
\<close>

theorem C5_workloadStatus_thresholds_witness:
  "searchIssues (trackerOf teamIssues) (dashboardJql None None) 200 = Inr teamIssues
   \<and> (\<exists>d. generateWorkloadDashboard (trackerOf teamIssues) sampleClock None None = Inr d
        \<and> map (\<lambda>m. (teamMember m, assignedIssues (memberMetrics m), workloadStatus m))
              (workloadDistribution d)
            = [(''Ann'', 2, underutilized), (''Bob'', 3, optimal)])"
proof -
  have h: "searchIssues (trackerOf teamIssues) (dashboardJql None None) 200 = Inr teamIssues"
    by (simp add: trackerOf_def)
  obtain d where d: "generateWorkloadDashboard (trackerOf teamIssues) sampleClock None None = Inr d"
    and t: "\<forall>m \<in> set (workloadDistribution d).
              (assignedIssues (memberMetrics m) = 2 \<longrightarrow> workloadStatus m = underutilized)
            \<and> (assignedIssues (memberMetrics m) = 3 \<longrightarrow> workloadStatus m = optimal)"
    using C5_workloadStatus_thresholds [OF h, of sampleClock] by blast
  have w: "map (\<lambda>m. (teamMember m, assignedIssues (memberMetrics m))) (workloadDistribution d)
             = [(''Ann'', 2), (''Bob'', 3)]"
    by (simp add: dashboard_fields(1) [OF h d] team_groups memberWorkload_fields)
  from w obtain a b where ab: "workloadDistribution d = [a, b]"
    and a: "teamMember a = ''Ann''" "assignedIssues (memberMetrics a) = 2"
    and b: "teamMember b = ''Bob''" "assignedIssues (memberMetrics b) = 3"
    by auto
  have "workloadStatus a = underutilized" "workloadStatus b = optimal"
    using t ab a b by simp_all
  then show ?thesis
    using h d ab a b by simp
qed

lemma exact_set_is_narrower:
  "isInProgressStatus s \<Longrightarrow> countsInProgress s"
  by (auto simp add: isInProgressStatus_def countsInProgress_def)

lemma peer_review_facts:
  "\<not> isInProgressStatus ''peer review''" "countsInProgress ''peer review''"
  "\<not> isInProgressStatus ''progressing''" "countsInProgress ''progressing''"
  by (simp_all add: isInProgressStatus_def countsInProgress_def)

lemma peer_sprint:
  "map_sum id (\<lambda>r. (inProgress (issueBreakdown r), todo (issueBreakdown r)))
     (analyzeSprintHealth (trackerOf [peerReviewIssue]) 7 None) = Inr (0, 1)"
proof -
  have g: "getSprintIssues (trackerOf [peerReviewIssue]) 7 = Inr [peerReviewIssue]"
    by (simp add: trackerOf_def)
  obtain r where r: "analyzeSprintHealth (trackerOf [peerReviewIssue]) 7 None = Inr r"
    using analyze_returns [OF g] by blast
  have "t_breakdown (tally_issues [peerReviewIssue]) =
     \<lparr>total = 1, done_cnt = 0, inProgress = 0, todo = 1, blocked = 0\<rparr>"
    by (simp add: tally_issues_def initial_tally_def issue_step_breakdown bucket_step_breakdown
      peerReviewIssue_def sampleIssue_def lower_samples isDoneStatus_def isInProgressStatus_def
      isBlockedStatus_def)
  then show ?thesis
    by (simp add: r analyze_fields(1) [OF g r])
qed

lemma peer_dashboard:
  "map_sum id (\<lambda>d. map (\<lambda>m. (teamMember m, inProgressIssues (memberMetrics m)))
       (workloadDistribution d))
     (generateWorkloadDashboard (trackerOf [peerReviewIssue]) clk None None) = Inr [(''Bob'', 1)]"
proof -
  have h: "searchIssues (trackerOf [peerReviewIssue]) (dashboardJql None None) 200
             = Inr [peerReviewIssue]"
    by (simp add: trackerOf_def)
  obtain d where d: "generateWorkloadDashboard (trackerOf [peerReviewIssue]) clk None None = Inr d"
    using dashboard_returns [OF h] by blast
  have g: "groupByAssignee [peerReviewIssue] = [(''Bob'', [peerReviewIssue])]"
    by (simp add: groupByAssignee_def group_step_def peerReviewIssue_def sampleIssue_def)
  have s: "toLowerCase (status_name peerReviewIssue) = ''peer review''"
    by (simp add: peerReviewIssue_def sampleIssue_def lower_samples)
  show ?thesis
    by (simp add: d dashboard_fields(1) [OF h d] g memberWorkload_fields s peer_review_facts)
qed

text \<open>
  Claim C10. In the workload dashboard an issue counts toward its assignee's in-progress
  total exactly when its lower-cased status contains \<open>progress\<close> or \<open>review\<close> as a
  substring. This is broader than the sprint analyzer's exact set (in progress, in review,
  code review): every status of the set is counted, and so are \<open>peer review\<close> and
  \<open>progressing\<close>, which are not in the set. For an issue in status "Peer Review" the
  sprint analyzer counts it as todo and the dashboard counts it as in progress.
\<close>

theorem C10_inProgress_by_substring:
  assumes "searchIssues client (dashboardJql pk sp) 200 = Inr issues"
  shows "\<exists>d. generateWorkloadDashboard client clk pk sp = Inr d
     \<and> (\<forall>m \<in> set (workloadDistribution d).
           inProgressIssues (memberMetrics m)
             = length (filter (\<lambda>i. assigneeName i = Some (teamMember m)
                   \<and> (includes_str (toLowerCase (status_name i)) ''progress''
                        \<or> includes_str (toLowerCase (status_name i)) ''review'')) issues))
     \<and> (\<forall>s. s \<in> {''in progress'', ''in review'', ''code review''}
            \<longrightarrow> includes_str s ''progress'' \<or> includes_str s ''review'')
     \<and> includes_str ''peer review'' ''review''
     \<and> ''peer review'' \<notin> {''in progress'', ''in review'', ''code review''}
     \<and> includes_str ''progressing'' ''progress''
     \<and> ''progressing'' \<notin> {''in progress'', ''in review'', ''code review''}
     \<and> map_sum id (\<lambda>r. (inProgress (issueBreakdown r), todo (issueBreakdown r)))
          (analyzeSprintHealth (trackerOf [peerReviewIssue]) 7 None) = Inr (0, 1)
     \<and> map_sum id (\<lambda>d. map (\<lambda>m. (teamMember m, inProgressIssues (memberMetrics m)))
            (workloadDistribution d))
          (generateWorkloadDashboard (trackerOf [peerReviewIssue]) clk None None)
        = Inr [(''Bob'', 1)]"
proof -
  obtain d where d: "generateWorkloadDashboard client clk pk sp = Inr d"
    using dashboard_returns [OF assms] by blast
  have "inProgressIssues (memberMetrics m)
             = length (filter (\<lambda>i. assigneeName i = Some (teamMember m)
                   \<and> (includes_str (toLowerCase (status_name i)) ''progress''
                        \<or> includes_str (toLowerCase (status_name i)) ''review'')) issues)"
    if "m \<in> set (workloadDistribution d)" for m
  proof -
    note e = member_entry [OF assms d that]
    have "inProgressIssues (memberMetrics m)
            = length (filter (\<lambda>i. countsInProgress (toLowerCase (status_name i)))
                (filter (\<lambda>i. assigneeName i = Some (teamMember m)) issues))"
      by (subst e) (simp only: memberWorkload_fields)
    then show ?thesis
      by (simp add: countsInProgress_def conj_commute)
  qed
  then have members: "\<forall>m \<in> set (workloadDistribution d).
           inProgressIssues (memberMetrics m)
             = length (filter (\<lambda>i. assigneeName i = Some (teamMember m)
                   \<and> (includes_str (toLowerCase (status_name i)) ''progress''
                        \<or> includes_str (toLowerCase (status_name i)) ''review'')) issues)"
    by blast
  have broader: "\<forall>s. s \<in> {''in progress'', ''in review'', ''code review''}
            \<longrightarrow> includes_str s ''progress'' \<or> includes_str s ''review''"
    by auto
  have samples: "includes_str ''peer review'' ''review''"
     "''peer review'' \<notin> {''in progress'', ''in review'', ''code review''}"
     "includes_str ''progressing'' ''progress''"
     "''progressing'' \<notin> {''in progress'', ''in review'', ''code review''}"
    by simp_all
  show ?thesis
    by (intro exI [of _ d] conjI d members broader samples peer_sprint peer_dashboard)
qed

text \<open>
  The team of the sample: Ann has one issue in progress ("In Progress"), Bob two
  ("Peer Review" and "Progressing").
\<close>

theorem C10_inProgress_by_substring_witness:
  "searchIssues (trackerOf teamIssues) (dashboardJql None None) 200 = Inr teamIssues
   \<and> (\<exists>d. generateWorkloadDashboard (trackerOf teamIssues) sampleClock None None = Inr d
        \<and> map (\<lambda>m. (teamMember m, inProgressIssues (memberMetrics m))) (workloadDistribution d)
            = [(''Ann'', 1), (''Bob'', 2)])"
proof -
  have h: "searchIssues (trackerOf teamIssues) (dashboardJql None None) 200 = Inr teamIssues"
    by (simp add: trackerOf_def)
  have ca: "length (filter (\<lambda>i. assigneeName i = Some ''Ann''
                   \<and> (includes_str (toLowerCase (status_name i)) ''progress''
                        \<or> includes_str (toLowerCase (status_name i)) ''review'')) teamIssues) = 1"
    by (simp add: teamIssues_def sampleIssue_def assigneeName_def lower_samples)
  have cb: "length (filter (\<lambda>i. assigneeName i = Some ''Bob''
                   \<and> (includes_str (toLowerCase (status_name i)) ''progress''
                        \<or> includes_str (toLowerCase (status_name i)) ''review'')) teamIssues) = 2"
    by (simp add: teamIssues_def sampleIssue_def assigneeName_def lower_samples)
  from C10_inProgress_by_substring [OF h, of sampleClock]
  have "\<exists>d. generateWorkloadDashboard (trackerOf teamIssues) sampleClock None None = Inr d
        \<and> map (\<lambda>m. (teamMember m, inProgressIssues (memberMetrics m))) (workloadDistribution d)
            = [(''Ann'', 1), (''Bob'', 2)]"
  proof (elim exE conjE)
    fix d
    assume d: "generateWorkloadDashboard (trackerOf teamIssues) sampleClock None None = Inr d"
      and t: "\<forall>m \<in> set (workloadDistribution d).
           inProgressIssues (memberMetrics m)
             = length (filter (\<lambda>i. assigneeName i = Some (teamMember m)
                   \<and> (includes_str (toLowerCase (status_name i)) ''progress''
                        \<or> includes_str (toLowerCase (status_name i)) ''review'')) teamIssues)"
    have w: "map teamMember (workloadDistribution d) = [''Ann'', ''Bob'']"
      by (simp add: dashboard_fields(1) [OF h d] team_groups memberWorkload_fields)
    from w obtain a b where ab: "workloadDistribution d = [a, b]"
      and a: "teamMember a = ''Ann''" and b: "teamMember b = ''Bob''"
      by auto
    have "inProgressIssues (memberMetrics a) = 1"
      using t ca by (simp add: ab a)
    moreover have "inProgressIssues (memberMetrics b) = 2"
      using t cb by (simp add: ab b)
    ultimately have res: "map (\<lambda>m. (teamMember m, inProgressIssues (memberMetrics m)))
        (workloadDistribution d) = [(''Ann'', 1), (''Bob'', 2)]"
      by (simp add: ab a b)
    show ?thesis
      by (intro exI [of _ d] conjI d res)
  qed
  then show ?thesis
    using h by (rule conjI [rotated])
qed

section \<open>Workload dashboard: unassigned issues\<close>

theorem C7_unassigned_counted_in_total:
  "map_sum id (\<lambda>d. (totalIssues d, teamSize d, workloadDistribution d))
     (generateWorkloadDashboard (trackerOf [unassignedIssue]) sampleClock None None)
     = Inr (1, 0, [])
   \<and> assignee unassignedIssue = None
   \<and> length (filter (\<lambda>i. assignee i \<noteq> None) [unassignedIssue]) = 0"
proof -
  have h: "searchIssues (trackerOf [unassignedIssue]) (dashboardJql None None) 200
             = Inr [unassignedIssue]"
    by (simp add: trackerOf_def)
  obtain d where d: "generateWorkloadDashboard (trackerOf [unassignedIssue]) sampleClock None None
      = Inr d"
    using dashboard_returns [OF h] by blast
  have u: "assignee unassignedIssue = None"
    by (simp add: unassignedIssue_def sampleIssue_def)
  have g: "groupByAssignee [unassignedIssue] = []"
    by (simp add: groupByAssignee_def group_step_def u)
  show ?thesis
    by (simp add: d dashboard_fields(1,2,3) [OF h d] g u)
qed

lemma dashboard_depends_on_groups:
  assumes "searchIssues client (dashboardJql pk sp) 200 = Inr issues"
    and "searchIssues client' (dashboardJql pk sp) 200 = Inr issues'"
    and "groupByAssignee issues' = groupByAssignee issues"
    and "generateWorkloadDashboard client clk pk sp = Inr d"
    and "generateWorkloadDashboard client' clk pk sp = Inr d'"
  shows "d = d'\<lparr>totalIssues := length issues\<rparr>"
  using assms by (auto simp add: generateWorkloadDashboard_def Let_def)

text \<open>
  Claim C7, amended. Issues with no assignee are left out of the grouping: for every
  fetched collection the dashboard is, in every field but \<open>totalIssues\<close>, the dashboard of
  the assigned issues alone (members and their metrics, team size, average workload,
  balance score, recommendations, bottlenecks); removing an unassigned issue changes no
  member's metrics; and the members' assigned counts, from which the average and the
  balance score are computed, add up to the number of assigned issues. \<open>totalIssues\<close> is
  the length of the whole fetched collection.
\<close>

theorem C7_unassigned_excluded_from_grouping:
  assumes "searchIssues client (dashboardJql pk sp) 200 = Inr issues"
    and "searchIssues client' (dashboardJql pk sp) 200
           = Inr (filter (\<lambda>i. assignee i \<noteq> None) issues)"
  shows "\<exists>d d'. generateWorkloadDashboard client clk pk sp = Inr d
     \<and> generateWorkloadDashboard client' clk pk sp = Inr d'
     \<and> d = d'\<lparr>totalIssues := length issues\<rparr>
     \<and> totalIssues d = length issues
     \<and> (\<forall>m \<in> set (workloadDistribution d). \<forall>i \<in> set issues.
           assignee i = None \<longrightarrow> memberWorkload clk (teamMember m,
               filter (\<lambda>j. assigneeName j = Some (teamMember m)) (remove1 i issues)) = m)
     \<and> sum_list (assignedCounts d) = length (filter (\<lambda>i. assignee i \<noteq> None) issues)"
proof -
  obtain d where d: "generateWorkloadDashboard client clk pk sp = Inr d"
    using dashboard_returns [OF assms(1)] by blast
  obtain d' where d': "generateWorkloadDashboard client' clk pk sp = Inr d'"
    using dashboard_returns [OF assms(2)] by blast
  have same: "d = d'\<lparr>totalIssues := length issues\<rparr>"
    by (rule dashboard_depends_on_groups [OF assms(1) assms(2) group_filter_assigned d d'])
  have tot: "totalIssues d = length issues"
    by (rule dashboard_fields(3) [OF assms(1) d])
  have mem: "memberWorkload clk (teamMember m,
               filter (\<lambda>j. assigneeName j = Some (teamMember m)) (remove1 i issues)) = m"
    if "m \<in> set (workloadDistribution d)" and "i \<in> set issues" and "assignee i = None" for m i
  proof -
    have "filter (\<lambda>j. assigneeName j = Some (teamMember m)) (remove1 i xs)
            = filter (\<lambda>j. assigneeName j = Some (teamMember m)) xs" for xs
      using that(3) by (induction xs) (auto simp add: assigneeName_def)
    then show ?thesis
      using member_entry [OF assms(1) d that(1)] by simp
  qed
  have sum: "sum_list (assignedCounts d) = length (filter (\<lambda>i. assignee i \<noteq> None) issues)"
    by (rule assigned_counts_sum [OF assms(1) d])
  show ?thesis
    using d d' same tot mem sum by blast
qed

text \<open>
  Six fetched issues, one of them unassigned: \<open>totalIssues\<close> is 6 and the assigned counts
  add up to 5.
\<close>

theorem C7_unassigned_excluded_from_grouping_witness:
  "searchIssues (trackerOf teamIssues) (dashboardJql None None) 200 = Inr teamIssues
   \<and> searchIssues (trackerOf (filter (\<lambda>i. assignee i \<noteq> None) teamIssues))
        (dashboardJql None None) 200 = Inr (filter (\<lambda>i. assignee i \<noteq> None) teamIssues)
   \<and> (\<exists>d d'. generateWorkloadDashboard (trackerOf teamIssues) sampleClock None None = Inr d
        \<and> generateWorkloadDashboard (trackerOf (filter (\<lambda>i. assignee i \<noteq> None) teamIssues))
             sampleClock None None = Inr d'
        \<and> d = d'\<lparr>totalIssues := length teamIssues\<rparr>
        \<and> totalIssues d = 6
        \<and> sum_list (assignedCounts d) = 5)"
proof -
  have h: "searchIssues (trackerOf teamIssues) (dashboardJql None None) 200 = Inr teamIssues"
    by (simp add: trackerOf_def)
  have h': "searchIssues (trackerOf (filter (\<lambda>i. assignee i \<noteq> None) teamIssues))
        (dashboardJql None None) 200 = Inr (filter (\<lambda>i. assignee i \<noteq> None) teamIssues)"
    by (simp add: trackerOf_def)
  have n: "length teamIssues = 6"
    by (simp add: teamIssues_def)
  have a: "length (filter (\<lambda>i. assignee i \<noteq> None) teamIssues) = 5"
    by (simp add: teamIssues_def sampleIssue_def)
  show ?thesis
    using h h' C7_unassigned_excluded_from_grouping [OF h h', of sampleClock]
    unfolding n a by blast
qed

section \<open>Workload dashboard: the balance score\<close>







































section \<open>Release notes: categorisation\<close>

lemma categorize_step_cases:
  "categorize_step cats i =
     (if isBreaking i then cats\<lparr>breakingChanges := breakingChanges cats @ [toItem i]\<rparr>
      else if hasLabel i ''deprecated'' then cats\<lparr>deprecated := deprecated cats @ [toItem i]\<rparr>
      else if isBugType i then cats\<lparr>bugFixes := bugFixes cats @ [toItem i]\<rparr>
      else if isFeatureType i then cats\<lparr>features := features cats @ [toItem i]\<rparr>
      else cats\<lparr>improvements := improvements cats @ [toItem i]\<rparr>)"
  by (simp add: categorize_step_def Let_def isBreaking_def hasLabel_def isBugType_def
      isFeatureType_def hasType_def)

lemma categorize_fold:
  "foldl categorize_step cats xs =
     \<lparr>features = features cats
        @ map toItem (filter (\<lambda>i. \<not> isBreaking i \<and> \<not> hasLabel i ''deprecated''
              \<and> \<not> isBugType i \<and> isFeatureType i) xs),
      improvements = improvements cats
        @ map toItem (filter (\<lambda>i. \<not> isBreaking i \<and> \<not> hasLabel i ''deprecated''
              \<and> \<not> isBugType i \<and> \<not> isFeatureType i) xs),
      bugFixes = bugFixes cats
        @ map toItem (filter (\<lambda>i. \<not> isBreaking i \<and> \<not> hasLabel i ''deprecated''
              \<and> isBugType i) xs),
      breakingChanges = breakingChanges cats @ map toItem (filter isBreaking xs),
      deprecated = deprecated cats
        @ map toItem (filter (\<lambda>i. \<not> isBreaking i \<and> hasLabel i ''deprecated'') xs)\<rparr>"
proof (induction xs arbitrary: cats)
  case Nil
  show ?case by simp
next
  case (Cons x xs)
  show ?case
    unfolding foldl_Cons Cons.IH
    by (simp add: categorize_step_cases)
qed

lemma release_fold_fst:
  "fst (foldl release_step acc xs) = foldl categorize_step (fst acc) xs"
  by (induction xs arbitrary: acc) (simp_all add: release_step_def)

lemma five_way_partition:
  "mset (map f (filter (\<lambda>i. A i) xs))
     + mset (map f (filter (\<lambda>i. \<not> A i \<and> B i) xs))
     + mset (map f (filter (\<lambda>i. \<not> A i \<and> \<not> B i \<and> C i) xs))
     + mset (map f (filter (\<lambda>i. \<not> A i \<and> \<not> B i \<and> \<not> C i \<and> D i) xs))
     + mset (map f (filter (\<lambda>i. \<not> A i \<and> \<not> B i \<and> \<not> C i \<and> \<not> D i) xs))
   = mset (map f xs)"
  by (induction xs) auto

lemma release_returns:
  "searchIssues client (releaseJql options (or_else (opt_startDate options) monthAgo)
       (or_else (opt_endDate options) today)) 200 = Inr issues \<Longrightarrow>
     \<exists>n. generateReleaseNotes client today monthAgo options = Inr n"
  by (simp add: generateReleaseNotes_def Let_def)

lemma release_categories:
  assumes "searchIssues client (releaseJql options (or_else (opt_startDate options) monthAgo)
       (or_else (opt_endDate options) today)) 200 = Inr issues"
    and "generateReleaseNotes client today monthAgo options = Inr n"
  shows "categories n = foldl categorize_step noCategories issues"
  using assms by (auto simp add: generateReleaseNotes_def Let_def release_fold_fst)

text \<open>
  Claim C3, amended. \<open>generateReleaseNotes\<close> puts every fetched issue into exactly one of
  the five categories, by the first test that holds, in this order: one of its lower-cased
  labels is \<open>breaking-change\<close> or \<open>breaking\<close> (the whole label, not a part of it):
  breakingChanges; one of them is \<open>deprecated\<close>: deprecated; the lower-cased type is bug or
  defect: bugFixes; it is story, feature or new feature: features; otherwise improvements.
  Each list holds the items of its issues in input order, and the five lists together
  contain the item of each input issue exactly once.
\<close>

theorem C3_release_categories_partition:
  assumes "searchIssues client (releaseJql options (or_else (opt_startDate options) monthAgo)
       (or_else (opt_endDate options) today)) 200 = Inr issues"
  shows "\<exists>n. generateReleaseNotes client today monthAgo options = Inr n
     \<and> breakingChanges (categories n) = map toItem (filter isBreaking issues)
     \<and> deprecated (categories n)
         = map toItem (filter (\<lambda>i. \<not> isBreaking i \<and> hasLabel i ''deprecated'') issues)
     \<and> bugFixes (categories n)
         = map toItem (filter (\<lambda>i. \<not> isBreaking i \<and> \<not> hasLabel i ''deprecated''
               \<and> isBugType i) issues)
     \<and> features (categories n)
         = map toItem (filter (\<lambda>i. \<not> isBreaking i \<and> \<not> hasLabel i ''deprecated''
               \<and> \<not> isBugType i \<and> isFeatureType i) issues)
     \<and> improvements (categories n)
         = map toItem (filter (\<lambda>i. \<not> isBreaking i \<and> \<not> hasLabel i ''deprecated''
               \<and> \<not> isBugType i \<and> \<not> isFeatureType i) issues)
     \<and> mset (breakingChanges (categories n)) + mset (deprecated (categories n))
         + mset (bugFixes (categories n)) + mset (features (categories n))
         + mset (improvements (categories n)) = mset (map toItem issues)
     \<and> length (breakingChanges (categories n)) + length (deprecated (categories n))
         + length (bugFixes (categories n)) + length (features (categories n))
         + length (improvements (categories n)) = length issues"
proof -
  obtain n where n: "generateReleaseNotes client today monthAgo options = Inr n"
    using release_returns [OF assms] by blast
  have c: "categories n = foldl categorize_step noCategories issues"
    by (rule release_categories [OF assms n])
  have lists: "breakingChanges (categories n) = map toItem (filter isBreaking issues)"
    "deprecated (categories n)
         = map toItem (filter (\<lambda>i. \<not> isBreaking i \<and> hasLabel i ''deprecated'') issues)"
    "bugFixes (categories n)
         = map toItem (filter (\<lambda>i. \<not> isBreaking i \<and> \<not> hasLabel i ''deprecated''
               \<and> isBugType i) issues)"
    "features (categories n)
         = map toItem (filter (\<lambda>i. \<not> isBreaking i \<and> \<not> hasLabel i ''deprecated''
               \<and> \<not> isBugType i \<and> isFeatureType i) issues)"
    "improvements (categories n)
         = map toItem (filter (\<lambda>i. \<not> isBreaking i \<and> \<not> hasLabel i ''deprecated''
               \<and> \<not> isBugType i \<and> \<not> isFeatureType i) issues)"
    by (simp_all add: c categorize_fold noCategories_def)
  have once: "mset (breakingChanges (categories n)) + mset (deprecated (categories n))
         + mset (bugFixes (categories n)) + mset (features (categories n))
         + mset (improvements (categories n)) = mset (map toItem issues)"
    unfolding lists by (rule five_way_partition)
  have "size (mset (breakingChanges (categories n)) + mset (deprecated (categories n))
         + mset (bugFixes (categories n)) + mset (features (categories n))
         + mset (improvements (categories n))) = size (mset (map toItem issues))"
    by (simp only: once)
  then have count: "length (breakingChanges (categories n)) + length (deprecated (categories n))
         + length (bugFixes (categories n)) + length (features (categories n))
         + length (improvements (categories n)) = length issues"
    by simp
  show ?thesis
    by (intro exI [of _ n] conjI n lists once count)
qed

lemma release_samples:
  "lowerLabels nonBreakingBug = [''non-breaking'']"
  "toLowerCase (issuetype_name nonBreakingBug) = ''bug''"
  "lowerLabels breakingStory = [''breaking'']"
  "toLowerCase (issuetype_name breakingStory) = ''story''"
  by (simp_all add: lowerLabels_def nonBreakingBug_def breakingStory_def sampleIssue_def
      toLowerCase_def lower_char_def upper_chars_def
      lower_chars_def)

lemma release_sample_classes:
  "\<not> isBreaking nonBreakingBug" "\<not> hasLabel nonBreakingBug ''deprecated''"
  "isBugType nonBreakingBug" "isBreaking breakingStory"
  by (simp_all add: isBreaking_def hasLabel_def isBugType_def hasType_def release_samples)

text \<open>
  Claim C3 as stated sends an issue with a label containing \<open>breaking\<close> to
  breakingChanges. A bug labelled \<open>non-breaking\<close> has such a label, and the code puts it
  under bugFixes: the test is membership of the whole label in the label array.
\<close>

theorem C3_label_substring_counterexample:
  "spec_hasLabelContaining nonBreakingBug ''breaking''
   \<and> map_sum id (\<lambda>n. (breakingChanges (categories n), bugFixes (categories n)))
        (generateReleaseNotes (trackerOf [nonBreakingBug]) ''2025-12-31'' ''2025-12-01''
           sampleOptions)
      = Inr ([], [toItem nonBreakingBug])"
proof -
  have s: "spec_hasLabelContaining nonBreakingBug ''breaking''"
    by (simp add: spec_hasLabelContaining_def release_samples)
  have h: "searchIssues (trackerOf [nonBreakingBug])
       (releaseJql sampleOptions (or_else (opt_startDate sampleOptions) ''2025-12-01'')
          (or_else (opt_endDate sampleOptions) ''2025-12-31'')) 200 = Inr [nonBreakingBug]"
    by (simp add: trackerOf_def)
  obtain n where n: "generateReleaseNotes (trackerOf [nonBreakingBug]) ''2025-12-31''
      ''2025-12-01'' sampleOptions = Inr n"
    using release_returns [OF h] by blast
  have c: "breakingChanges (categories n) = []" "bugFixes (categories n) = [toItem nonBreakingBug]"
    by (simp_all add: release_categories [OF h n] categorize_step_cases noCategories_def
        release_sample_classes)
  show ?thesis
    by (simp add: s n c)
qed

text \<open>
  Two fetched issues: a story labelled \<open>Breaking\<close> goes to breakingChanges, a bug labelled
  \<open>non-breaking\<close> to bugFixes.
\<close>

theorem C3_release_categories_partition_witness:
  "searchIssues (trackerOf [nonBreakingBug, breakingStory])
       (releaseJql sampleOptions (or_else (opt_startDate sampleOptions) ''2025-12-01'')
          (or_else (opt_endDate sampleOptions) ''2025-12-31'')) 200
     = Inr [nonBreakingBug, breakingStory]
   \<and> (\<exists>n. generateReleaseNotes (trackerOf [nonBreakingBug, breakingStory]) ''2025-12-31''
            ''2025-12-01'' sampleOptions = Inr n
        \<and> breakingChanges (categories n) = [toItem breakingStory]
        \<and> bugFixes (categories n) = [toItem nonBreakingBug]
        \<and> deprecated (categories n) = [] \<and> features (categories n) = []
        \<and> improvements (categories n) = [])"
proof -
  have h: "searchIssues (trackerOf [nonBreakingBug, breakingStory])
       (releaseJql sampleOptions (or_else (opt_startDate sampleOptions) ''2025-12-01'')
          (or_else (opt_endDate sampleOptions) ''2025-12-31'')) 200
     = Inr [nonBreakingBug, breakingStory]"
    by (simp add: trackerOf_def)
  obtain n where n: "generateReleaseNotes (trackerOf [nonBreakingBug, breakingStory])
        ''2025-12-31'' ''2025-12-01'' sampleOptions = Inr n"
    and lists: "breakingChanges (categories n)
         = map toItem (filter isBreaking [nonBreakingBug, breakingStory])"
      "deprecated (categories n)
         = map toItem (filter (\<lambda>i. \<not> isBreaking i \<and> hasLabel i ''deprecated'')
             [nonBreakingBug, breakingStory])"
      "bugFixes (categories n)
         = map toItem (filter (\<lambda>i. \<not> isBreaking i \<and> \<not> hasLabel i ''deprecated''
               \<and> isBugType i) [nonBreakingBug, breakingStory])"
      "features (categories n)
         = map toItem (filter (\<lambda>i. \<not> isBreaking i \<and> \<not> hasLabel i ''deprecated''
               \<and> \<not> isBugType i \<and> isFeatureType i) [nonBreakingBug, breakingStory])"
      "improvements (categories n)
         = map toItem (filter (\<lambda>i. \<not> isBreaking i \<and> \<not> hasLabel i ''deprecated''
               \<and> \<not> isBugType i \<and> \<not> isFeatureType i) [nonBreakingBug, breakingStory])"
    using C3_release_categories_partition [OF h] by blast
  show ?thesis
    by (intro conjI exI [of _ n] h n) (simp_all add: lists release_sample_classes)
qed


section \<open>Text analysis: the similar-issue search\<close>

lemma analyze_text_fields:
  "analyzeIssueText client txt projectKey =
     Inr \<lparr>suggestedType = suggestTypeOf (toLowerCase txt),
          suggestedPriority = suggestPriorityOf (toLowerCase txt),
          suggestedLabels = suggestLabelsOf (toLowerCase txt),
          suggestedComponents = [],
          estimatedStoryPoints = estimatePointsOf (toLowerCase txt),
          similarIssues = findSimilarIssues client txt projectKey,
          suggestions = suggestionsOf txt (toLowerCase txt) (suggestTypeOf (toLowerCase txt))
            (findSimilarIssues client txt projectKey)\<rparr>"
  by (simp add: analyzeIssueText_def Let_def)

lemma failed_search_is_empty:
  "searchIssues client (similarJql projectKey (searchTermsOf txt)) 5 = Inl e \<Longrightarrow>
     findSimilarIssues client txt projectKey = []"
  by (simp add: findSimilarIssues_def Let_def)

text \<open>
  Claim C9. When the similar-issue search of \<open>analyzeIssueText\<close> throws (the query is built
  from the first three words longer than four characters, joined with OR), the error is
  absorbed: the analysis returns, \<open>similarIssues\<close> is empty, and the suggested type,
  priority, labels and story points are the ones computed from the text, the same as with
  any other tracker.
\<close>

theorem C9_similar_search_failure_absorbed:
  assumes "searchIssues client (similarJql projectKey (searchTermsOf txt)) 5 = Inl e"
  shows "\<exists>r. analyzeIssueText client txt projectKey = Inr r
     \<and> similarIssues r = []
     \<and> suggestedType r = suggestTypeOf (toLowerCase txt)
     \<and> suggestedPriority r = suggestPriorityOf (toLowerCase txt)
     \<and> suggestedLabels r = suggestLabelsOf (toLowerCase txt)
     \<and> estimatedStoryPoints r = estimatePointsOf (toLowerCase txt)
     \<and> (\<forall>client' r'. analyzeIssueText client' txt projectKey = Inr r'
          \<longrightarrow> suggestedType r' = suggestedType r
            \<and> suggestedPriority r' = suggestedPriority r
            \<and> suggestedLabels r' = suggestedLabels r
            \<and> estimatedStoryPoints r' = estimatedStoryPoints r)
     \<and> searchTermsOf txt
         = join '' OR '' (take 3 (filter (\<lambda>w. length w > 4) (split_whitespace txt)))"
proof -
  have empty: "findSimilarIssues client txt projectKey = []"
    by (rule failed_search_is_empty [OF assms])
  show ?thesis
    by (simp add: analyze_text_fields empty searchTermsOf_def)
qed

lemma crash_lower: "toLowerCase crashReport = ''login button crashes always''"
  by (simp add: crashReport_def toLowerCase_def lower_char_def upper_chars_def
      lower_chars_def)

lemma crash_terms: "searchTermsOf crashReport = ''Login OR button OR crashes''"
  by (simp add: searchTermsOf_def split_whitespace_def crashReport_def isSpace_def)

lemma crash_type: "suggestTypeOf ''login button crashes always'' = ''Bug''"
  by (simp add: suggestTypeOf_def someIncluded_def epicKeywords_def storyKeywords_def
      bugKeywords_def)

lemma crash_priority: "suggestPriorityOf ''login button crashes always'' = ''Medium''"
  by (simp add: suggestPriorityOf_def someIncluded_def urgentKeywords_def highKeywords_def
      lowKeywords_def)

lemma crash_points: "estimatePointsOf ''login button crashes always'' = 3"
  by (simp add: estimatePointsOf_def someIncluded_def hugeIndicators_def complexIndicators_def
      simpleIndicators_def)

lemma crash_labels: "suggestLabelsOf ''login button crashes always'' = [''frontend'']"
  by (simp add: suggestLabelsOf_def someIncluded_def labelPatterns_def)

text \<open>
  A tracker whose search always throws, on the text "Login button crashes always":
  the terms are \<open>Login OR button OR crashes\<close>, and the analysis suggests a Bug of Medium
  priority with the label frontend and 3 story points.
\<close>

theorem C9_similar_search_failure_absorbed_witness:
  "searchIssues failingSearch (similarJql ''WEB'' (searchTermsOf crashReport)) 5
     = Inl (ApiError ''search unavailable'')
   \<and> searchTermsOf crashReport = ''Login OR button OR crashes''
   \<and> (\<exists>r. analyzeIssueText failingSearch crashReport ''WEB'' = Inr r
        \<and> similarIssues r = []
        \<and> suggestedType r = ''Bug''
        \<and> suggestedPriority r = ''Medium''
        \<and> suggestedLabels r = [''frontend'']
        \<and> estimatedStoryPoints r = 3)"
proof -
  have h: "searchIssues failingSearch (similarJql ''WEB'' (searchTermsOf crashReport)) 5
     = Inl (ApiError ''search unavailable'')"
    by (simp add: failingSearch_def)
  obtain r where r: "analyzeIssueText failingSearch crashReport ''WEB'' = Inr r"
    and e: "similarIssues r = []"
    and f: "suggestedType r = suggestTypeOf (toLowerCase crashReport)"
      "suggestedPriority r = suggestPriorityOf (toLowerCase crashReport)"
      "suggestedLabels r = suggestLabelsOf (toLowerCase crashReport)"
      "estimatedStoryPoints r = estimatePointsOf (toLowerCase crashReport)"
    using C9_similar_search_failure_absorbed [OF h] by blast
  show ?thesis
    using h r e f
    by (simp only: crash_lower crash_terms crash_type crash_priority crash_points crash_labels)
       blast
qed

end
